theory Spec2Isabelle
  imports Complex_Main "HOL-Library.Word"
begin

section \<open>Values carried by messages\<close>

text \<open>
  A JavaScript string is a sequence of UTF-16 code units: \<^verbatim>\<open>slice\<close>, \<^verbatim>\<open>startsWith\<close>,
  \<^verbatim>\<open>trim\<close> and a regular expression without the \<^verbatim>\<open>u\<close> flag all count and compare code
  units. \<open>str\<close> gives the code units of a literal of the source that is written in ASCII.
\<close>

type_synonym jstring = "16 word list"

fun str :: "string \<Rightarrow> jstring" where
  "str [] = []"
| "str (c # cs) = of_char c # str cs"

text \<open>
  Everything the relay reads from a client is the result of \<^verbatim>\<open>JSON.parse\<close>, and
  everything it pushes is the argument of one \<^verbatim>\<open>JSON.stringify\<close>. A value is therefore a
  JSON value, plus \<^verbatim>\<open>undefined\<close> for a property that is not there. A number is the real
  number it denotes (the relay only tests a number for zero and, in one template, prints
  it). An object is its list of own properties.
\<close>

datatype json =
    JUndefined
  | JNull
  | JBool bool
  | JNum real
  | JStr jstring
  | JArr "json list"
  | JObj "(jstring \<times> json) list"

text \<open>The truth value JavaScript gives a value in \<^verbatim>\<open>if (v)\<close>, \<^verbatim>\<open>v && w\<close>, \<^verbatim>\<open>v || w\<close>.\<close>

fun truthy :: "json \<Rightarrow> bool" where
  "truthy JUndefined = False"
| "truthy JNull = False"
| "truthy (JBool b) = b"
| "truthy (JNum n) = (n \<noteq> 0)"
| "truthy (JStr s) = (s \<noteq> [])"
| "truthy (JArr xs) = True"
| "truthy (JObj kvs) = True"

text \<open>
  \<^verbatim>\<open>v.k\<close> for one of the property names the relay reads (none of them is inherited by a
  string, a number, a boolean or an array). Reading a property of \<^verbatim>\<open>null\<close> or
  \<^verbatim>\<open>undefined\<close> throws a TypeError: \<open>nullish\<close> is tested before \<open>js_prop\<close> is used.
\<close>

fun nullish :: "json \<Rightarrow> bool" where
  "nullish JUndefined = True"
| "nullish JNull = True"
| "nullish v = False"

fun js_prop :: "json \<Rightarrow> jstring \<Rightarrow> json" where
  "js_prop (JObj kvs) k = (case map_of kvs k of Some v \<Rightarrow> v | None \<Rightarrow> JUndefined)"
| "js_prop v k = JUndefined"

text \<open>\<^verbatim>\<open>a || b\<close> on values.\<close>

definition js_or :: "json \<Rightarrow> json \<Rightarrow> json" where
  "js_or a b = (if truthy a then a else b)"

section \<open>Sessions, channels and the registry\<close>

type_synonym sid = jstring
type_synonym chan = nat

text \<open>
  A session object \<^verbatim>\<open>{ ws, lastSeen, state }\<close>. The channel \<open>ws\<close> is a reference to the
  socket object, which the connection's handlers share with the registry entry.
\<close>

record player =
  ws :: chan
  lastSeen :: int
  state :: json

text \<open>
  \<^verbatim>\<open>players\<close> is a JavaScript \<^verbatim>\<open>Map\<close>: it iterates in insertion order, \<^verbatim>\<open>set\<close> on a key
  that is present replaces the value where it stands, \<^verbatim>\<open>set\<close> on a new key appends.
\<close>

type_synonym registry = "(sid \<times> player) list"

fun map_get :: "registry \<Rightarrow> sid \<Rightarrow> player option" where
  "map_get [] k = None"
| "map_get ((i, p) # rest) k = (if i = k then Some p else map_get rest k)"

fun map_set :: "sid \<Rightarrow> player \<Rightarrow> registry \<Rightarrow> registry" where
  "map_set k v [] = [(k, v)]"
| "map_set k v ((i, p) # rest) = (if i = k then (k, v) # rest else (i, p) # map_set k v rest)"

fun map_delete :: "sid \<Rightarrow> registry \<Rightarrow> registry" where
  "map_delete k [] = []"
| "map_delete k ((i, p) # rest) = (if i = k then map_delete k rest else (i, p) # map_delete k rest)"

definition MAX_PLAYERS :: nat where
  "MAX_PLAYERS = 8"

definition STALE_TIMEOUT :: int where
  "STALE_TIMEOUT = 15000"

section \<open>Outbound messages and effects\<close>

text \<open>
  The objects handed to \<^verbatim>\<open>JSON.stringify\<close>, one constructor for each \<^verbatim>\<open>type\<close> tag,
  with the values of their other properties in the order the source writes them. The
  serialised text is not modelled: a message stands for the string made of it.
\<close>

datatype out_msg =
    Full
  | Welcome sid "(sid \<times> json) list"
  | Join sid
  | Leave sid
  | State sid json
  | Code jstring json sid
  | Code_error jstring json
  | Narrative_result json json
  | Narrative_error json jstring

datatype system_prompt = AI_SYSTEM_PROMPT | NARRATIVE_SYSTEM_PROMPT

text \<open>
  What is suspended at an \<^verbatim>\<open>await\<close>: the variables of \<^verbatim>\<open>handleAI\<close>
  (\<^verbatim>\<open>authorId\<close>, \<^verbatim>\<open>prompt\<close>) or of \<^verbatim>\<open>handleNarrative\<close> (\<^verbatim>\<open>authorId\<close>, \<^verbatim>\<open>msg\<close>).
\<close>

datatype continuation =
    AI_cont sid json
  | Narrative_cont sid json

record backend_request =
  apiKey :: json
  model :: jstring
  max_tokens :: nat
  system :: system_prompt
  content :: json
  cont :: continuation

text \<open>
  The calls the relay makes on its collaborators, in the order it makes them:
  \<^verbatim>\<open>ws.send(raw)\<close>, \<^verbatim>\<open>ws.close()\<close>, \<^verbatim>\<open>ws.terminate()\<close> on a socket, and
  \<^verbatim>\<open>client.messages.create(...)\<close> on the generative backend.
\<close>

datatype event =
    Send chan out_msg
  | Close chan
  | Terminate chan
  | Backend_call backend_request

text \<open>
  The state of the process: the registry, the \<^verbatim>\<open>readyState\<close> of every socket (set by
  the socket library, only read by the relay; \<open>1\<close> is OPEN), the number of calls of
  \<^verbatim>\<open>uuidv4()\<close> made so far, and the trace of calls made on collaborators. Between two
  handlers the library may change \<open>readyState\<close>; within one handler the relay never reads
  the state of a socket after it has closed or terminated it. Lines written to the console
  are not part of the trace.
\<close>

record world =
  players :: registry
  readyState :: "chan \<Rightarrow> nat"
  uuid_calls :: nat
  trace :: "event list"

definition ws_send :: "chan \<Rightarrow> out_msg \<Rightarrow> world \<Rightarrow> world" where
  "ws_send c raw w = w\<lparr>trace := trace w @ [Send c raw]\<rparr>"

definition ws_close :: "chan \<Rightarrow> world \<Rightarrow> world" where
  "ws_close c w = w\<lparr>trace := trace w @ [Close c]\<rparr>"

definition ws_terminate :: "chan \<Rightarrow> world \<Rightarrow> world" where
  "ws_terminate c w = w\<lparr>trace := trace w @ [Terminate c]\<rparr>"

section \<open>The broadcast router\<close>

text \<open>
  \<^verbatim>\<open>broadcast(msg, excludeId)\<close>: the loop over the entries of \<^verbatim>\<open>players\<close>. An omitted
  \<^verbatim>\<open>excludeId\<close> is \<^verbatim>\<open>undefined\<close>, here \<open>None\<close>, which no identifier equals.
\<close>

fun broadcast_loop :: "out_msg \<Rightarrow> sid option \<Rightarrow> registry \<Rightarrow> world \<Rightarrow> world" where
  "broadcast_loop raw excludeId [] w = w"
| "broadcast_loop raw excludeId ((i, p) # rest) w =
     broadcast_loop raw excludeId rest
       (if Some i \<noteq> excludeId \<and> readyState w (ws p) = 1 then ws_send (ws p) raw w else w)"

definition broadcast :: "out_msg \<Rightarrow> sid option \<Rightarrow> world \<Rightarrow> world" where
  "broadcast msg excludeId w = broadcast_loop msg excludeId (players w) w"

fun broadcastAll_loop :: "out_msg \<Rightarrow> registry \<Rightarrow> world \<Rightarrow> world" where
  "broadcastAll_loop raw [] w = w"
| "broadcastAll_loop raw ((i, p) # rest) w =
     broadcastAll_loop raw rest
       (if readyState w (ws p) = 1 then ws_send (ws p) raw w else w)"

definition broadcastAll :: "out_msg \<Rightarrow> world \<Rightarrow> world" where
  "broadcastAll msg w = broadcastAll_loop msg (players w) w"

text \<open>
  The sends one fan-out over the entries \<open>ps\<close> makes, given the sockets' states \<open>rs\<close>:
  one for each entry that is not excluded and whose socket is open, in registry order.
\<close>

definition fanout :: "out_msg \<Rightarrow> sid option \<Rightarrow> (chan \<Rightarrow> nat) \<Rightarrow> registry \<Rightarrow> event list" where
  "fanout msg excludeId rs ps =
     map (\<lambda>(i, p). Send (ws p) msg)
       (filter (\<lambda>(i, p). Some i \<noteq> excludeId \<and> rs (ws p) = 1) ps)"

section \<open>Admission, the welcome roster and disconnects\<close>

text \<open>\<^verbatim>\<open>getPlayerStates()\<close>: the entries whose \<^verbatim>\<open>state\<close> is truthy, in registry order.\<close>

fun getPlayerStates_loop :: "registry \<Rightarrow> (sid \<times> json) list \<Rightarrow> (sid \<times> json) list" where
  "getPlayerStates_loop [] list = list"
| "getPlayerStates_loop ((i, p) # rest) list =
     getPlayerStates_loop rest (if truthy (state p) then list @ [(i, state p)] else list)"

definition getPlayerStates :: "world \<Rightarrow> (sid \<times> json) list" where
  "getPlayerStates w = getPlayerStates_loop (players w) []"

text \<open>
  The \<^verbatim>\<open>connection\<close> handler up to the point where it installs the socket's handlers.
  \<open>sock\<close> is the new socket, \<open>uuid\<close> the value \<^verbatim>\<open>uuidv4()\<close> returns if it is called,
  \<open>now\<close> the value of \<^verbatim>\<open>Date.now()\<close>.
\<close>

definition on_connection :: "chan \<Rightarrow> sid \<Rightarrow> int \<Rightarrow> world \<Rightarrow> world" where
  "on_connection sock uuid now w =
     (if length (players w) \<ge> MAX_PLAYERS
      then ws_close sock (ws_send sock Full w)
      else
        let w1 = w\<lparr>uuid_calls := uuid_calls w + 1,
                   players := map_set uuid \<lparr>ws = sock, lastSeen = now, state = JNull\<rparr> (players w)\<rparr>;
            w2 = ws_send sock (Welcome uuid (getPlayerStates w1)) w1
        in broadcast (Join uuid) (Some uuid) w2)"

text \<open>
  The socket's \<^verbatim>\<open>close\<close> handler; \<open>cid\<close> is the \<^verbatim>\<open>id\<close> of the connection handler's
  closure.
\<close>

definition on_close :: "sid \<Rightarrow> world \<Rightarrow> world" where
  "on_close cid w = broadcast (Leave cid) None (w\<lparr>players := map_delete cid (players w)\<rparr>)"

section \<open>Strings\<close>

text \<open>
  The code units \<^verbatim>\<open>trim\<close> removes: the WhiteSpace and LineTerminator code points of
  ECMAScript, all of which are single code units.
\<close>

definition is_ws :: "16 word \<Rightarrow> bool" where
  "is_ws c =
     (c \<in> set [0x0009, 0x000A, 0x000B, 0x000C, 0x000D, 0x0020, 0x00A0, 0x1680,
               0x2000, 0x2001, 0x2002, 0x2003, 0x2004, 0x2005, 0x2006, 0x2007, 0x2008, 0x2009,
               0x200A, 0x2028, 0x2029, 0x202F, 0x205F, 0x3000, 0xFEFF])"

definition js_trim :: "jstring \<Rightarrow> jstring" where
  "js_trim s = rev (dropWhile is_ws (rev (dropWhile is_ws s)))"

definition startsWith :: "jstring \<Rightarrow> jstring \<Rightarrow> bool" where
  "startsWith s p = (take (length p) s = p)"

definition endsWith :: "jstring \<Rightarrow> jstring \<Rightarrow> bool" where
  "endsWith s p = (length p \<le> length s \<and> drop (length s - length p) s = p)"

text \<open>Three backticks.\<close>

definition fence :: jstring where
  "fence = [0x60, 0x60, 0x60]"

text \<open>
  \<^verbatim>\<open>s.replace(/^```(?:L1|L2|...)?\n?/, '')\<close> on a string that starts with the fence:
  the fence goes, then the first of the language tags (in the order of the alternation)
  that follows it, if any, then one newline, if any.
\<close>

fun drop_tag :: "jstring list \<Rightarrow> jstring \<Rightarrow> jstring" where
  "drop_tag [] s = s"
| "drop_tag (l # ls) s = (if startsWith s l then drop (length l) s else drop_tag ls s)"

definition drop_newline :: "jstring \<Rightarrow> jstring" where
  "drop_newline s = (case s of [] \<Rightarrow> [] | c # rest \<Rightarrow> if c = 0x0A then rest else s)"

definition strip_open_fence :: "jstring list \<Rightarrow> jstring \<Rightarrow> jstring" where
  "strip_open_fence langs s =
     (if startsWith s fence then drop_newline (drop_tag langs (drop 3 s)) else s)"

text \<open>
  \<^verbatim>\<open>s.replace(/\n?```$/, '')\<close>: the leftmost match is the one with the newline when the
  string ends with a newline and the fence.
\<close>

definition strip_close_fence :: "jstring \<Rightarrow> jstring" where
  "strip_close_fence s =
     (if endsWith s (0x0A # fence) then take (length s - 4) s
      else if endsWith s fence then take (length s - 3) s
      else s)"

definition strip_fences :: "jstring list \<Rightarrow> jstring \<Rightarrow> jstring" where
  "strip_fences langs s =
     (if startsWith s fence then strip_close_fence (strip_open_fence langs s) else s)"

definition js_join :: "jstring \<Rightarrow> jstring list \<Rightarrow> jstring" where
  "js_join sep ss = (case ss of [] \<Rightarrow> [] | s # rest \<Rightarrow> s @ concat (map (\<lambda>t. sep @ t) rest))"

text \<open>The first thrown error of a sequence of evaluations, or all their values.\<close>

fun all_ok :: "(jstring + 'a) list \<Rightarrow> jstring + 'a list" where
  "all_ok [] = Inr []"
| "all_ok (Inl e # rest) = Inl e"
| "all_ok (Inr x # rest) = (case all_ok rest of Inl e \<Rightarrow> Inl e | Inr xs \<Rightarrow> Inr (x # xs))"

text \<open>
  The string a template literal or \<^verbatim>\<open>join\<close> makes of a value; \<open>Inl\<close> is the message of
  the TypeError thrown for an object with an own property \<^verbatim>\<open>toString\<close> (a parsed value
  is never callable). An array is its elements joined by commas, where \<^verbatim>\<open>null\<close> and
  \<^verbatim>\<open>undefined\<close> give the empty string. How the runtime prints a number is the
  parameter \<open>Number_toString\<close>.
\<close>

fun ToString :: "(real \<Rightarrow> jstring) \<Rightarrow> json \<Rightarrow> jstring + jstring" where
  "ToString Number_toString JUndefined = Inr (str ''undefined'')"
| "ToString Number_toString JNull = Inr (str ''null'')"
| "ToString Number_toString (JBool b) = Inr (if b then str ''true'' else str ''false'')"
| "ToString Number_toString (JNum n) = Inr (Number_toString n)"
| "ToString Number_toString (JStr s) = Inr s"
| "ToString Number_toString (JArr xs) =
     (case all_ok (map (\<lambda>x. if nullish x then Inr [] else ToString Number_toString x) xs) of
        Inl e \<Rightarrow> Inl e
      | Inr ss \<Rightarrow> Inr (js_join (str '','') ss))"
| "ToString Number_toString (JObj kvs) =
     (if str ''toString'' \<in> set (map fst kvs)
      then Inl (str ''Cannot convert object to primitive value'')
      else Inr (str ''[object Object]''))"

text \<open>\<^verbatim>\<open>xs.join(sep)\<close> on an array of values.\<close>

definition array_join :: "(real \<Rightarrow> jstring) \<Rightarrow> jstring \<Rightarrow> json list \<Rightarrow> jstring + jstring" where
  "array_join Number_toString sep xs =
     (case all_ok (map (\<lambda>x. if nullish x then Inr [] else ToString Number_toString x) xs) of
        Inl e \<Rightarrow> Inl e
      | Inr ss \<Rightarrow> Inr (js_join sep ss))"

section \<open>The external-request pipeline\<close>

text \<open>
  What the backend call settles to: a rejection with its message, or a response with its
  list of content blocks. A block without a \<^verbatim>\<open>text\<close> property is \<open>Other_block\<close>.
\<close>

datatype content_block = Text_block jstring | Other_block

datatype outcome = Rejected jstring | Responded "content_block list"

text \<open>\<^verbatim>\<open>response.content[0].text.trim()\<close>; \<open>Inl\<close> is the message of the TypeError.\<close>

fun first_text :: "content_block list \<Rightarrow> jstring + jstring" where
  "first_text [] = Inl (str ''Cannot read properties of undefined (reading 'text')'')"
| "first_text (Other_block # rest) = Inl (str ''Cannot read properties of undefined (reading 'trim')'')"
| "first_text (Text_block t # rest) = Inr (js_trim t)"

text \<open>The \<^verbatim>\<open>catch\<close> block of \<^verbatim>\<open>handleAI\<close>, with \<open>e\<close> for \<^verbatim>\<open>e.message\<close>.\<close>

definition handleAI_catch :: "sid \<Rightarrow> json \<Rightarrow> jstring \<Rightarrow> world \<Rightarrow> world" where
  "handleAI_catch authorId prompt e w =
     (case map_get (players w) authorId of
        None \<Rightarrow> w
      | Some p \<Rightarrow> if readyState w (ws p) = 1 then ws_send (ws p) (Code_error e prompt) w else w)"

text \<open>
  \<^verbatim>\<open>handleAI\<close> up to its \<^verbatim>\<open>await\<close>: the client is made for the caller's key, the call
  is issued and the function suspends.
\<close>

definition handleAI :: "sid \<Rightarrow> json \<Rightarrow> json \<Rightarrow> world \<Rightarrow> world" where
  "handleAI authorId prompt key w =
     w\<lparr>trace := trace w @
         [Backend_call \<lparr>apiKey = key, model = str ''claude-sonnet-4-5-20250929'', max_tokens = 1024,
            system = AI_SYSTEM_PROMPT, content = prompt, cont = AI_cont authorId prompt\<rparr>]\<rparr>"

text \<open>\<^verbatim>\<open>handleAI\<close> from its \<^verbatim>\<open>await\<close> on, in the state the process is in by then.\<close>

definition handleAI_resume :: "sid \<Rightarrow> json \<Rightarrow> outcome \<Rightarrow> world \<Rightarrow> world" where
  "handleAI_resume authorId prompt out w =
     (case out of
        Rejected e \<Rightarrow> handleAI_catch authorId prompt e w
      | Responded blocks \<Rightarrow>
          (case first_text blocks of
             Inl e \<Rightarrow> handleAI_catch authorId prompt e w
           | Inr code \<Rightarrow>
               broadcastAll (Code (strip_fences [(str ''javascript''), (str ''js'')] code) prompt authorId) w))"

definition nl :: jstring where
  "nl = [0x0A]"

text \<open>One line of the NPC list; \<^verbatim>\<open>n.name\<close> throws when the element is \<^verbatim>\<open>null\<close>.\<close>

definition npc_line :: "(real \<Rightarrow> jstring) \<Rightarrow> json \<Rightarrow> jstring + jstring" where
  "npc_line Number_toString n =
     (if nullish n then Inl (str ''Cannot read properties of null (reading 'name')'')
      else
        case ToString Number_toString (js_prop n (str ''name'')) of Inl e \<Rightarrow> Inl e | Inr a \<Rightarrow>
        case ToString Number_toString (js_prop n (str ''role'')) of Inl e \<Rightarrow> Inl e | Inr b \<Rightarrow>
        case ToString Number_toString (js_prop n (str ''mood'')) of Inl e \<Rightarrow> Inl e | Inr c \<Rightarrow>
          Inr ((str ''- '') @ a @ (str '' ('') @ b @ (str '', mood: '') @ c @ (str '')'')))"

text \<open>\<^verbatim>\<open>(msg.npcList || []).map(...).join('\n')\<close>: only an array has \<^verbatim>\<open>map\<close>.\<close>

definition npc_lines :: "(real \<Rightarrow> jstring) \<Rightarrow> json \<Rightarrow> jstring + jstring" where
  "npc_lines Number_toString v =
     (case v of
        JArr xs \<Rightarrow>
          (case all_ok (map (npc_line Number_toString) xs) of Inl e \<Rightarrow> Inl e | Inr ls \<Rightarrow> Inr (js_join nl ls))
      | _ \<Rightarrow> Inl (str ''(msg.npcList || []).map is not a function''))"

text \<open>\<^verbatim>\<open>(msg.history || []).join('\n') || '(first gathering)'\<close>.\<close>

definition history_text :: "(real \<Rightarrow> jstring) \<Rightarrow> json \<Rightarrow> jstring + jstring" where
  "history_text Number_toString v =
     (case v of
        JArr xs \<Rightarrow>
          (case array_join Number_toString nl xs of
             Inl e \<Rightarrow> Inl e
           | Inr s \<Rightarrow> Inr (if s = [] then (str ''(first gathering)'') else s))
      | _ \<Rightarrow> Inl (str ''(msg.history || []).join is not a function''))"

text \<open>The default for the current narrative; its dash is the code unit U+2014.\<close>

definition none_yet :: jstring where
  "none_yet = str ''(none yet '' @ [0x2014] @ str '' this is the first gathering)''"

text \<open>The template literal \<^verbatim>\<open>userMessage\<close>, its substitutions evaluated left to right.\<close>

definition userMessage :: "(real \<Rightarrow> jstring) \<Rightarrow> json \<Rightarrow> jstring + jstring" where
  "userMessage Number_toString msg =
     (case ToString Number_toString (js_prop msg (str ''name'')) of Inl e \<Rightarrow> Inl e | Inr name \<Rightarrow>
      case ToString Number_toString (js_or (js_prop msg (str ''storySeed'')) (JStr (str ''(none provided)''))) of
        Inl e \<Rightarrow> Inl e | Inr seed \<Rightarrow>
      case npc_lines Number_toString (js_or (js_prop msg (str ''npcList'')) (JArr [])) of
        Inl e \<Rightarrow> Inl e | Inr npcs \<Rightarrow>
      case history_text Number_toString (js_or (js_prop msg (str ''history'')) (JArr [])) of
        Inl e \<Rightarrow> Inl e | Inr hist \<Rightarrow>
      case ToString Number_toString (js_or (js_prop msg (str ''currentNarrative'')) (JStr none_yet)) of
        Inl e \<Rightarrow> Inl e | Inr cur \<Rightarrow>
        Inr ((str ''Settlement: '') @ name @ nl
             @ (str ''Story Seed: '') @ seed @ nl @ nl
             @ (str ''NPCs present:'') @ nl @ npcs @ nl @ nl
             @ (str ''Previous events:'') @ nl @ hist @ nl @ nl
             @ (str ''Current narrative:'') @ nl @ cur @ nl @ nl
             @ (str ''Write the next chapter of this village's story.'')))"

text \<open>The \<^verbatim>\<open>catch\<close> block of \<^verbatim>\<open>handleNarrative\<close>.\<close>

definition handleNarrative_catch :: "sid \<Rightarrow> json \<Rightarrow> jstring \<Rightarrow> world \<Rightarrow> world" where
  "handleNarrative_catch authorId msg e w =
     (case map_get (players w) authorId of
        None \<Rightarrow> w
      | Some p \<Rightarrow>
          if readyState w (ws p) = 1
          then ws_send (ws p) (Narrative_error (js_prop msg (str ''settlementId'')) e) w
          else w)"

text \<open>
  \<^verbatim>\<open>handleNarrative\<close> up to its \<^verbatim>\<open>await\<close>. An error thrown while the user message is
  built is caught by the function's own \<^verbatim>\<open>catch\<close>, and no call is issued.
\<close>

definition handleNarrative ::
  "(real \<Rightarrow> jstring) \<Rightarrow> sid \<Rightarrow> json \<Rightarrow> world \<Rightarrow> world" where
  "handleNarrative Number_toString authorId msg w =
     (case userMessage Number_toString msg of
        Inl e \<Rightarrow> handleNarrative_catch authorId msg e w
      | Inr um \<Rightarrow>
          w\<lparr>trace := trace w @
              [Backend_call \<lparr>apiKey = js_prop msg (str ''apiKey''), model = str ''claude-sonnet-4-5-20250929'',
                 max_tokens = 1024, system = NARRATIVE_SYSTEM_PROMPT, content = JStr um,
                 cont = Narrative_cont authorId msg\<rparr>]\<rparr>)"

text \<open>
  \<^verbatim>\<open>handleNarrative\<close> from its \<^verbatim>\<open>await\<close> on. \<open>JSON_parse\<close> is \<^verbatim>\<open>JSON.parse\<close>, with \<open>Inl\<close>
  the message of its SyntaxError. After the broadcast, \<^verbatim>\<open>result.summary\<close> is read for the
  log line, still inside the \<^verbatim>\<open>try\<close>: it throws when \<^verbatim>\<open>result\<close> is \<^verbatim>\<open>null\<close>.
\<close>

definition handleNarrative_resume ::
  "(jstring \<Rightarrow> jstring + json) \<Rightarrow> sid \<Rightarrow> json \<Rightarrow> outcome \<Rightarrow> world \<Rightarrow> world" where
  "handleNarrative_resume JSON_parse authorId msg out w =
     (case out of
        Rejected e \<Rightarrow> handleNarrative_catch authorId msg e w
      | Responded blocks \<Rightarrow>
          (case first_text blocks of
             Inl e \<Rightarrow> handleNarrative_catch authorId msg e w
           | Inr text \<Rightarrow>
               (case JSON_parse (strip_fences [(str ''json'')] text) of
                  Inl e \<Rightarrow> handleNarrative_catch authorId msg e w
                | Inr result \<Rightarrow>
                    let w1 = broadcastAll
                               (Narrative_result (js_prop msg (str ''settlementId'')) result) w
                    in if nullish result
                       then handleNarrative_catch authorId msg
                              (str ''Cannot read properties of null (reading 'summary')'') w1
                       else w1)))"

section \<open>Inbound messages\<close>

text \<open>
  \<^verbatim>\<open>msg.prompt.slice(0, 500)\<close> on a truthy prompt: a string gives its first 500 code
  units, an array its first 500 elements; on anything else the call throws (\<open>None\<close>).
\<close>

fun js_slice_500 :: "json \<Rightarrow> json option" where
  "js_slice_500 (JStr s) = Some (JStr (take 500 s))"
| "js_slice_500 (JArr xs) = Some (JArr (take 500 xs))"
| "js_slice_500 v = None"

text \<open>
  The socket's \<^verbatim>\<open>message\<close> handler. \<open>cid\<close> and \<open>sock\<close> are the \<^verbatim>\<open>id\<close> and \<^verbatim>\<open>ws\<close> of the
  connection handler's closure, \<open>now\<close> is \<^verbatim>\<open>Date.now()\<close>, and \<open>parsed\<close> is the result of
  \<^verbatim>\<open>JSON.parse(raw)\<close>, \<open>None\<close> when it throws. Whatever is thrown inside the \<^verbatim>\<open>try\<close> is
  caught and only logged. \<open>Number_toString\<close> is the runtime's printing of numbers, which
  only the narrative template uses.
\<close>

definition on_message ::
  "(real \<Rightarrow> jstring) \<Rightarrow> sid \<Rightarrow> chan \<Rightarrow> int \<Rightarrow> json option \<Rightarrow> world \<Rightarrow> world" where
  "on_message Number_toString cid sock now parsed w =
     (case parsed of
        None \<Rightarrow> w
      | Some msg \<Rightarrow>
          if nullish msg then w
          else if js_prop msg (str ''type'') = JStr (str ''state'') then
            let w1 = (case map_get (players w) cid of
                        None \<Rightarrow> w
                      | Some p \<Rightarrow>
                          w\<lparr>players :=
                              map_set cid (p\<lparr>lastSeen := now, state := js_prop msg (str ''data'')\<rparr>)
                                (players w)\<rparr>)
            in broadcast (State cid (js_prop msg (str ''data''))) (Some cid) w1
          else if js_prop msg (str ''type'') = JStr (str ''ai'') \<and> truthy (js_prop msg (str ''prompt''))
                  \<and> truthy (js_prop msg (str ''apiKey'')) then
            (case js_slice_500 (js_prop msg (str ''prompt'')) of
               None \<Rightarrow> w
             | Some prompt \<Rightarrow> handleAI cid prompt (js_prop msg (str ''apiKey'')) w)
          else if js_prop msg (str ''type'') = JStr (str ''ai'') then
            ws_send sock
              (Code_error (str ''Missing API key or prompt'') (js_or (js_prop msg (str ''prompt'')) (JStr [])))
              w
          else if js_prop msg (str ''type'') = JStr (str ''narrative'') \<and> truthy (js_prop msg (str ''apiKey'')) then
            handleNarrative Number_toString cid msg w
          else w)"

section \<open>The liveness reaper\<close>

text \<open>
  One run of the interval callback. The loop visits the entries of \<^verbatim>\<open>players\<close> in order
  and deletes only the entry it is visiting, so every entry of the registry as it was when
  the run began is visited; a broadcast inside the loop sees the registry as it is by then.
\<close>

fun sweep :: "int \<Rightarrow> registry \<Rightarrow> world \<Rightarrow> world" where
  "sweep now [] w = w"
| "sweep now ((i, p) # rest) w =
     sweep now rest
       (if now - lastSeen p > STALE_TIMEOUT
        then
          let w1 = ws_terminate (ws p) w;
              w2 = w1\<lparr>players := map_delete i (players w1)\<rparr>
          in broadcast (Leave i) None w2
        else w)"

definition reaper :: "int \<Rightarrow> world \<Rightarrow> world" where
  "reaper now w = sweep now (players w) w"

text \<open>The period, in milliseconds, at which \<^verbatim>\<open>setInterval\<close> runs the callback.\<close>

definition SWEEP_INTERVAL :: int where
  "SWEEP_INTERVAL = 10000"

section \<open>Completion of a backend call\<close>

text \<open>
  The completion of a backend call runs the continuation that was suspended on it, in the
  state the process is in when the call settles.
\<close>

definition resume ::
  "(jstring \<Rightarrow> jstring + json) \<Rightarrow> continuation \<Rightarrow> outcome \<Rightarrow> world \<Rightarrow> world" where
  "resume JSON_parse k out w =
     (case k of
        AI_cont authorId prompt \<Rightarrow> handleAI_resume authorId prompt out w
      | Narrative_cont authorId msg \<Rightarrow> handleNarrative_resume JSON_parse authorId msg out w)"

section \<open>Notions used to state the properties\<close>

text \<open>
  A registry as the process builds it: a \<^verbatim>\<open>Map\<close> has each key once, and every connection
  has a socket object of its own.
\<close>

definition wf_registry :: "registry \<Rightarrow> bool" where
  "wf_registry ps = (distinct (map fst ps) \<and> distinct (map (\<lambda>e. ws (snd e)) ps))"

text \<open>The calls a handler run from \<open>w\<close> to \<open>w'\<close> has added to the trace.\<close>

definition new_events :: "world \<Rightarrow> world \<Rightarrow> event list" where
  "new_events w w' = drop (length (trace w)) (trace w')"

text \<open>A session is stale at time \<open>now\<close> when \<^verbatim>\<open>now - p.lastSeen > STALE_TIMEOUT\<close>.\<close>

definition stale :: "int \<Rightarrow> player \<Rightarrow> bool" where
  "stale now p = (now - lastSeen p > 15000)"

text \<open>
  The events of a sweep over the entries \<open>es\<close> still to visit, where \<open>pre\<close> are the
  entries already visited and kept.
\<close>

fun sweep_events :: "int \<Rightarrow> (chan \<Rightarrow> nat) \<Rightarrow> registry \<Rightarrow> registry \<Rightarrow> event list" where
  "sweep_events now rs pre [] = []"
| "sweep_events now rs pre ((i, p) # rest) =
     (if stale now p
      then Terminate (ws p) # fanout (Leave i) None rs (pre @ rest) @ sweep_events now rs pre rest
      else sweep_events now rs (pre @ [(i, p)]) rest)"

section \<open>Example states and messages\<close>

text \<open>
  Two sessions: \<open>A\<close> on socket 1, open, last seen at time 0 and with no state yet; \<open>B\<close> on
  socket 2, which is no longer open, last seen at 5000 with a state.
\<close>

definition ex_world :: world where
  "ex_world =
     \<lparr>players = [(str ''A'', \<lparr>ws = 1, lastSeen = 0, state = JNull\<rparr>),
                 (str ''B'', \<lparr>ws = 2, lastSeen = 5000, state = JObj [(str ''x'', JNum 1)]\<rparr>)],
      readyState = (\<lambda>c. if c = 2 then 3 else 1), uuid_calls = 2, trace = []\<rparr>"

text \<open>Three sessions with open sockets; \<open>A\<close> and \<open>C\<close> were last seen at 0, \<open>B\<close> at 5000.\<close>

definition ex_three :: world where
  "ex_three =
     \<lparr>players = [(str ''A'', \<lparr>ws = 1, lastSeen = 0, state = JNull\<rparr>),
                 (str ''B'', \<lparr>ws = 2, lastSeen = 5000, state = JObj [(str ''x'', JNum 1)]\<rparr>),
                 (str ''C'', \<lparr>ws = 3, lastSeen = 0, state = JNull\<rparr>)],
      readyState = (\<lambda>c. 1), uuid_calls = 3, trace = []\<rparr>"

text \<open>Three sessions; the socket of the middle one, \<open>B\<close>, is closing.\<close>

definition ex_closing :: world where
  "ex_closing =
     \<lparr>players = [(str ''A'', \<lparr>ws = 1, lastSeen = 0, state = JNull\<rparr>),
                 (str ''B'', \<lparr>ws = 2, lastSeen = 0, state = JNull\<rparr>),
                 (str ''C'', \<lparr>ws = 3, lastSeen = 0, state = JNull\<rparr>)],
      readyState = (\<lambda>c. if c = 2 then 2 else 1), uuid_calls = 3, trace = []\<rparr>"

text \<open>Eight sessions, \<open>0\<close> to \<open>7\<close>, on the open sockets 10 to 17.\<close>

definition ex_full :: world where
  "ex_full =
     \<lparr>players = map (\<lambda>n. ([of_nat (48 + n)], \<lparr>ws = 10 + n, lastSeen = 0, state = JNull\<rparr>))
                   [0, 1, 2, 3, 4, 5, 6, 7],
      readyState = (\<lambda>c. 1), uuid_calls = 8, trace = []\<rparr>"

definition ex_state_msg :: "json \<Rightarrow> json" where
  "ex_state_msg d = JObj [(str ''type'', JStr (str ''state'')), (str ''data'', d)]"

definition ex_ai_msg :: json where
  "ex_ai_msg = JObj [(str ''type'', JStr (str ''ai'')), (str ''prompt'', JStr (str ''add a moose'')),
                     (str ''apiKey'', JStr (str ''k''))]"

text \<open>A narrative request with its context and no credential.\<close>

definition ex_narrative_no_key :: json where
  "ex_narrative_no_key =
     JObj [(str ''type'', JStr (str ''narrative'')), (str ''settlementId'', JNum 4), (str ''name'', JStr (str ''Oslo''))]"

text \<open>A narrative request with a credential and no context at all.\<close>

definition ex_narrative_no_context :: json where
  "ex_narrative_no_context = JObj [(str ''type'', JStr (str ''narrative'')), (str ''apiKey'', JStr (str ''k''))]"

text \<open>An \<^verbatim>\<open>ai\<close> request with a credential and no prompt.\<close>

definition ex_ai_no_prompt :: json where
  "ex_ai_no_prompt = JObj [(str ''type'', JStr (str ''ai'')), (str ''apiKey'', JStr (str ''k''))]"


text \<open>A complete narrative request.\<close>

definition ex_narrative_msg :: json where
  "ex_narrative_msg =
     JObj [(str ''type'', JStr (str ''narrative'')), (str ''settlementId'', JNum 4), (str ''name'', JStr (str ''Oslo'')),
           (str ''apiKey'', JStr (str ''k''))]"

text \<open>A backend text that wraps its code in a fence.\<close>

definition ex_fenced :: jstring where
  "ex_fenced = fence @ (str ''js'') @ nl @ (str ''x()'') @ nl @ fence"

text \<open>A stand-in for the runtime's printing of the numbers the examples use.\<close>

definition ex_number :: "real \<Rightarrow> jstring" where
  "ex_number r = (if r = 4 then str ''4'' else str ''1'')"

text \<open>A stand-in for \<^verbatim>\<open>JSON.parse\<close> on the texts the examples use.\<close>

definition ex_parse :: "jstring \<Rightarrow> jstring + json" where
  "ex_parse s =
     (if s = (str ''null'') then Inr JNull
      else if s = (str ''{}'') then Inr (JObj [])
      else Inl (str ''Unexpected token''))"

section \<open>Properties of the router\<close>

lemma ws_send_fields [simp]:
  "players (ws_send c m w) = players w"
  "readyState (ws_send c m w) = readyState w"
  "uuid_calls (ws_send c m w) = uuid_calls w"
  "trace (ws_send c m w) = trace w @ [Send c m]"
  by (simp_all add: ws_send_def)

lemma broadcast_loop_eq:
  "broadcast_loop m ex ps w = w\<lparr>trace := trace w @ fanout m ex (readyState w) ps\<rparr>"
proof (induction ps arbitrary: w)
  case Nil
  show ?case by (simp add: fanout_def)
next
  case (Cons e ps)
  obtain i p where e: "e = (i, p)" by (cases e)
  show ?case
    by (simp add: e Cons.IH fanout_def ws_send_def)
qed

lemma broadcast_eq:
  "broadcast m ex w = w\<lparr>trace := trace w @ fanout m ex (readyState w) (players w)\<rparr>"
  by (simp add: broadcast_def broadcast_loop_eq)

lemma broadcastAll_loop_eq:
  "broadcastAll_loop m ps w = broadcast_loop m None ps w"
  by (induction ps arbitrary: w) auto

text \<open>
  C7. A fan-out, by \<open>broadcast\<close> or by \<open>broadcastAll\<close>, changes nothing but the trace:
  the registry, the sockets' states and the identifier count are as before. What it adds
  to the trace is exactly one send for each recipient that is not excluded and whose
  socket is open, in registry order; an entry whose socket is not open is passed over
  and the entries after it are still served.
\<close>

theorem broadcast_frame:
  "players (broadcast m ex w) = players w
   \<and> readyState (broadcast m ex w) = readyState w
   \<and> uuid_calls (broadcast m ex w) = uuid_calls w
   \<and> trace (broadcast m ex w) = trace w @ fanout m ex (readyState w) (players w)
   \<and> players (broadcastAll m w) = players w
   \<and> readyState (broadcastAll m w) = readyState w
   \<and> uuid_calls (broadcastAll m w) = uuid_calls w
   \<and> trace (broadcastAll m w) = trace w @ fanout m None (readyState w) (players w)"
  by (simp add: broadcast_eq broadcastAll_def broadcastAll_loop_eq broadcast_loop_eq)

theorem broadcast_frame_witness:
  "players (broadcast (Leave (str ''Z'')) None ex_closing) = players ex_closing
   \<and> trace (broadcast (Leave (str ''Z'')) None ex_closing) = [Send 1 (Leave (str ''Z'')), Send 3 (Leave (str ''Z''))]
   \<and> trace (broadcast (Join (str ''A'')) (Some (str ''A'')) ex_closing) = [Send 3 (Join (str ''A''))]
   \<and> players (broadcastAll (Leave (str ''Z'')) ex_closing) = players ex_closing
   \<and> trace (broadcastAll (Leave (str ''Z'')) ex_closing) = [Send 1 (Leave (str ''Z'')), Send 3 (Leave (str ''Z''))]"
  using broadcast_frame [where w = ex_closing and m = "Leave (str ''Z'')" and ex = None]
    broadcast_frame [where w = ex_closing and m = "Join (str ''A'')" and ex = "Some (str ''A'')"]
  by (simp add: ex_closing_def fanout_def)

text \<open>
  C8. \<open>broadcastAll msg\<close> is \<open>broadcast msg\<close> with no identifier excluded: the two leave
  the same state and make the same sends on the same sockets in the same order.
\<close>

theorem broadcastAll_is_broadcast:
  "broadcastAll msg w = broadcast msg None w"
  by (simp add: broadcastAll_def broadcast_def broadcastAll_loop_eq)

section \<open>Properties of the registry operations\<close>

lemma map_get_map_set:
  "map_get (map_set k v ps) k' = (if k' = k then Some v else map_get ps k')"
  by (induction ps) auto

lemma map_get_None_iff: "map_get ps k = None \<longleftrightarrow> k \<notin> fst ` set ps"
  by (induction ps k rule: map_get.induct) auto

lemma map_set_fresh: "k \<notin> fst ` set ps \<Longrightarrow> map_set k v ps = ps @ [(k, v)]"
  by (induction ps) auto

lemma fanout_map_set:
  "fanout m (Some k) rs (map_set k v ps) = fanout m (Some k) rs ps"
  by (induction k v ps rule: map_set.induct) (auto simp: fanout_def)

lemma fanout_absent:
  "k \<notin> fst ` set ps \<Longrightarrow> fanout m (Some k) rs ps = fanout m None rs ps"
  by (induction ps) (auto simp: fanout_def)

lemma getPlayerStates_loop_eq:
  "getPlayerStates_loop ps acc =
     acc @ map (\<lambda>(i, p). (i, state p)) (filter (\<lambda>(i, p). truthy (state p)) ps)"
  by (induction ps arbitrary: acc) auto

lemma roster_map_set:
  "distinct (map fst ps) \<Longrightarrow> \<not> truthy (state v) \<Longrightarrow>
   filter (\<lambda>(i, p). truthy (state p)) (map_set k v ps) =
   filter (\<lambda>(i, p). i \<noteq> k \<and> truthy (state p)) ps"
proof (induction ps)
  case Nil
  then show ?case by simp
next
  case (Cons e ps)
  obtain i p where e: "e = (i, p)" by (cases e)
  show ?case
  proof (cases "i = k")
    case True
    with Cons.prems e have "k \<notin> fst ` set ps" by auto
    then have "filter (\<lambda>(i, p). i \<noteq> k \<and> truthy (state p)) ps = filter (\<lambda>(i, p). truthy (state p)) ps"
      by (intro filter_cong) (auto simp: image_iff)
    with True e Cons.prems show ?thesis by simp
  next
    case False
    with Cons e show ?thesis by simp
  qed
qed

section \<open>Admission\<close>

text \<open>
  C1. A connection attempt made while the registry holds 8 sessions or more is sent
  \<open>Full\<close> on its own socket, which is then closed, and nothing else happens: the
  registry, the count of generated identifiers and every socket's state are as before.
  An attempt made while the registry holds fewer than 8 sessions calls \<^verbatim>\<open>uuidv4()\<close> once
  and sets the identifier it returns to a new session object with the attempt's socket,
  the current time and no state; when that identifier is not yet a key, as for a fresh
  one, the registry grows by exactly this entry, at its end.
\<close>

theorem connection_gate:
  "(8 \<le> length (players w) \<longrightarrow>
      on_connection sock uuid now w = w\<lparr>trace := trace w @ [Send sock Full, Close sock]\<rparr>)
   \<and> (length (players w) < 8 \<longrightarrow>
      uuid_calls (on_connection sock uuid now w) = uuid_calls w + 1
      \<and> players (on_connection sock uuid now w) =
          map_set uuid \<lparr>ws = sock, lastSeen = now, state = JNull\<rparr> (players w)
      \<and> map_get (players (on_connection sock uuid now w)) uuid =
          Some \<lparr>ws = sock, lastSeen = now, state = JNull\<rparr>
      \<and> (uuid \<notin> fst ` set (players w) \<longrightarrow>
           players (on_connection sock uuid now w) =
             players w @ [(uuid, \<lparr>ws = sock, lastSeen = now, state = JNull\<rparr>)]))"
  by (simp add: on_connection_def MAX_PLAYERS_def ws_close_def ws_send_def Let_def
      broadcast_eq map_get_map_set map_set_fresh)


theorem connection_gate_witness:
  "8 \<le> length (players ex_full)
   \<and> on_connection 20 (str ''8'') 100 ex_full = ex_full\<lparr>trace := [Send 20 Full, Close 20]\<rparr>
   \<and> length (players ex_world) < 8
   \<and> (str ''C'') \<notin> fst ` set (players ex_world)
   \<and> uuid_calls (on_connection 3 (str ''C'') 100 ex_world) = 3
   \<and> players (on_connection 3 (str ''C'') 100 ex_world) =
       players ex_world @ [(str ''C'', \<lparr>ws = 3, lastSeen = 100, state = JNull\<rparr>)]"
  using connection_gate [where w = ex_full and sock = 20 and uuid = "str ''8''" and now = 100]
    connection_gate [where w = ex_world and sock = 3 and uuid = "str ''C''" and now = 100]
  by (simp add: ex_full_def ex_world_def)

section \<open>The state relay\<close>

lemma map_get_in_set: "map_get ps k = Some p \<Longrightarrow> (k, p) \<in> set ps"
  by (induction ps k rule: map_get.induct) (auto split: if_splits)

lemma wf_other_socket:
  assumes "wf_registry ps" "map_get ps k = Some p" "(i, q) \<in> set ps" "i \<noteq> k"
  shows "ws q \<noteq> ws p"
proof -
  from assms(1) have inj: "inj_on (\<lambda>e. ws (snd e)) (set ps)"
    by (simp add: wf_registry_def distinct_map)
  from assms(2) have "(k, p) \<in> set ps" by (rule map_get_in_set)
  show ?thesis
  proof
    assume "ws q = ws p"
    with inj_onD [OF inj, of "(i, q)" "(k, p)"] \<open>(i, q) \<in> set ps\<close> \<open>(k, p) \<in> set ps\<close>
      \<open>i \<noteq> k\<close>
    show False by simp
  qed
qed

lemma new_events_append [simp]:
  "trace w' = trace w @ evs \<Longrightarrow> new_events w w' = evs"
  by (simp add: new_events_def)

lemma on_message_state:
  assumes "js_prop msg (str ''type'') = JStr (str ''state'')"
  shows "on_message N cid sock now (Some msg) w =
     broadcast (State cid (js_prop msg (str ''data''))) (Some cid)
       (case map_get (players w) cid of
          None \<Rightarrow> w
        | Some p \<Rightarrow>
            w\<lparr>players := map_set cid (p\<lparr>lastSeen := now, state := js_prop msg (str ''data'')\<rparr>)
                            (players w)\<rparr>)"
proof -
  from assms have "\<not> nullish msg" by (cases msg) auto
  with assms show ?thesis by (simp add: on_message_def Let_def)
qed

text \<open>
  C4. A \<^verbatim>\<open>state\<close> message from a session \<open>cid\<close> that is in the registry sets that
  session's \<open>lastSeen\<close> to the current time and its \<open>state\<close> to the message's \<^verbatim>\<open>data\<close>,
  and leaves every other entry as it was. A \<open>State\<close> message with the sender's identifier
  and that same payload is sent once to every other session of the registry whose socket
  is open, in registry order, and to nobody else; in a well-formed registry nothing at all
  is sent on the sender's own socket.
\<close>

theorem state_relay:
  assumes "map_get (players w) cid = Some p"
      and "js_prop msg (str ''type'') = JStr (str ''state'')"
  shows "players (on_message N cid sock now (Some msg) w) =
           map_set cid (p\<lparr>lastSeen := now, state := js_prop msg (str ''data'')\<rparr>) (players w)
       \<and> map_get (players (on_message N cid sock now (Some msg) w)) cid =
           Some (p\<lparr>lastSeen := now, state := js_prop msg (str ''data'')\<rparr>)
       \<and> (\<forall>k. k \<noteq> cid \<longrightarrow>
             map_get (players (on_message N cid sock now (Some msg) w)) k = map_get (players w) k)
       \<and> trace (on_message N cid sock now (Some msg) w) =
           trace w @ map (\<lambda>(i, q). Send (ws q) (State cid (js_prop msg (str ''data''))))
                       (filter (\<lambda>(i, q). i \<noteq> cid \<and> readyState w (ws q) = 1) (players w))
       \<and> (wf_registry (players w) \<longrightarrow>
             (\<forall>m. Send (ws p) m \<notin> set (new_events w (on_message N cid sock now (Some msg) w))))"
proof -
  let ?d = "js_prop msg (str ''data'')"
  let ?w' = "on_message N cid sock now (Some msg) w"
  have tr: "trace ?w' = trace w @ fanout (State cid ?d) (Some cid) (readyState w) (players w)"
    using assms by (simp add: on_message_state broadcast_eq fanout_map_set)
  have fan: "fanout (State cid ?d) (Some cid) (readyState w) (players w) =
      map (\<lambda>(i, q). Send (ws q) (State cid ?d))
        (filter (\<lambda>(i, q). i \<noteq> cid \<and> readyState w (ws q) = 1) (players w))"
    by (simp add: fanout_def)
  have excl: "Send (ws p) m \<notin> set (new_events w ?w')" if wf: "wf_registry (players w)" for m
  proof
    assume "Send (ws p) m \<in> set (new_events w ?w')"
    with tr have "Send (ws p) m \<in> set (fanout (State cid ?d) (Some cid) (readyState w) (players w))"
      by simp
    then obtain i q where "(i, q) \<in> set (players w)" "i \<noteq> cid" "ws q = ws p"
      by (auto simp: fanout_def)
    with wf_other_socket [OF wf assms(1)] show False by blast
  qed
  show ?thesis
    using assms tr fan excl
    by (simp add: on_message_state broadcast_eq map_get_map_set)
qed

theorem state_relay_witness:
  "map_get (players ex_three) (str ''A'') = Some \<lparr>ws = 1, lastSeen = 0, state = JNull\<rparr>
   \<and> js_prop (ex_state_msg (JObj [(str ''x'', JNum 1)])) (str ''type'') = JStr (str ''state'')
   \<and> wf_registry (players ex_three)
   \<and> map_get (players (on_message ex_number (str ''A'') 1 7 (Some (ex_state_msg (JObj [(str ''x'', JNum 1)]))) ex_three)) (str ''A'') =
       Some \<lparr>ws = 1, lastSeen = 7, state = JObj [(str ''x'', JNum 1)]\<rparr>
   \<and> map_get (players (on_message ex_number (str ''A'') 1 7 (Some (ex_state_msg (JObj [(str ''x'', JNum 1)]))) ex_three)) (str ''B'') =
       map_get (players ex_three) (str ''B'')
   \<and> trace (on_message ex_number (str ''A'') 1 7 (Some (ex_state_msg (JObj [(str ''x'', JNum 1)]))) ex_three) =
       [Send 2 (State (str ''A'') (JObj [(str ''x'', JNum 1)])), Send 3 (State (str ''A'') (JObj [(str ''x'', JNum 1)]))]
   \<and> Send 1 (State (str ''A'') (JObj [(str ''x'', JNum 1)])) \<notin>
       set (new_events ex_three (on_message ex_number (str ''A'') 1 7 (Some (ex_state_msg (JObj [(str ''x'', JNum 1)]))) ex_three))"
  using state_relay [where N = ex_number and w = ex_three and cid = "str ''A''" and sock = 1 and now = 7
      and p = "\<lparr>ws = 1, lastSeen = 0, state = JNull\<rparr>"
      and msg = "ex_state_msg (JObj [(str ''x'', JNum 1)])"]
  by (simp add: ex_three_def ex_state_msg_def wf_registry_def)

text \<open>
  C10. A \<^verbatim>\<open>state\<close> message handled for an identifier that is no longer in the registry
  changes no session (the whole state but the trace is as before), and the \<open>State\<close>
  message under that identifier is still sent to every session whose socket is open.
\<close>

theorem state_from_removed_session:
  assumes "map_get (players w) cid = None"
      and "js_prop msg (str ''type'') = JStr (str ''state'')"
  shows "on_message N cid sock now (Some msg) w =
           w\<lparr>trace := trace w @
               map (\<lambda>(i, q). Send (ws q) (State cid (js_prop msg (str ''data''))))
                 (filter (\<lambda>(i, q). readyState w (ws q) = 1) (players w))\<rparr>"
proof -
  from assms(1) have "cid \<notin> fst ` set (players w)" by (simp add: map_get_None_iff)
  then have "fanout (State cid (js_prop msg (str ''data''))) (Some cid) (readyState w) (players w) =
             fanout (State cid (js_prop msg (str ''data''))) None (readyState w) (players w)"
    by (rule fanout_absent)
  with assms show ?thesis
    by (simp add: on_message_state broadcast_eq fanout_def)
qed

theorem state_from_removed_session_witness:
  "map_get (players ex_three) (str ''Z'') = None
   \<and> js_prop (ex_state_msg (JNum 5)) (str ''type'') = JStr (str ''state'')
   \<and> on_message ex_number (str ''Z'') 9 7 (Some (ex_state_msg (JNum 5))) ex_three =
       ex_three\<lparr>trace := [Send 1 (State (str ''Z'') (JNum 5)), Send 2 (State (str ''Z'') (JNum 5)),
                          Send 3 (State (str ''Z'') (JNum 5))]\<rparr>"
  using state_from_removed_session [where N = ex_number and w = ex_three and cid = "str ''Z''"
      and sock = 9 and now = 7
      and msg = "ex_state_msg (JNum 5)"]
  by (simp add: ex_three_def ex_state_msg_def)

section \<open>The welcome roster\<close>

lemma getPlayerStates_map_set:
  assumes "distinct (map fst (players w))"
  shows "getPlayerStates (w\<lparr>uuid_calls := n,
            players := map_set k \<lparr>ws = c, lastSeen = t, state = JNull\<rparr> (players w)\<rparr>) =
         map (\<lambda>(i, p). (i, state p))
           (filter (\<lambda>(i, p). i \<noteq> k \<and> truthy (state p)) (players w))"
  using assms by (simp add: getPlayerStates_def getPlayerStates_loop_eq roster_map_set)

text \<open>
  C5, as the code has it. The roster in the \<open>Welcome\<close> message of a newly admitted
  session is the list, in registry order, of the identifier and state of every other
  session of the registry whose state is truthy in the sense of \<^verbatim>\<open>if (p.state)\<close>. It
  leaves out the new session and every session whose state is \<^verbatim>\<open>null\<close>, and it also
  leaves out a session whose recorded payload is \<^verbatim>\<open>false\<close>, \<^verbatim>\<open>0\<close> or the empty string.
  The \<open>Welcome\<close> message is the first thing sent, on the new socket; the \<open>Join\<close>
  fan-out to the others follows.
\<close>

theorem welcome_roster:
  assumes "length (players w) < 8"
      and "distinct (map fst (players w))"
  shows "new_events w (on_connection sock uuid now w) =
           Send sock
             (Welcome uuid
                (map (\<lambda>(i, p). (i, state p))
                   (filter (\<lambda>(i, p). i \<noteq> uuid \<and> truthy (state p)) (players w))))
           # fanout (Join uuid) (Some uuid) (readyState w) (players w)"
proof -
  have "trace (on_connection sock uuid now w) =
          trace w @ Send sock
             (Welcome uuid
                (map (\<lambda>(i, p). (i, state p))
                   (filter (\<lambda>(i, p). i \<noteq> uuid \<and> truthy (state p)) (players w))))
           # fanout (Join uuid) (Some uuid) (readyState w) (players w)"
    using assms
    by (simp add: on_connection_def MAX_PLAYERS_def Let_def broadcast_eq fanout_map_set
        getPlayerStates_map_set)
  then show ?thesis by simp
qed

theorem welcome_roster_witness:
  "length (players ex_world) < 8
   \<and> distinct (map fst (players ex_world))
   \<and> new_events ex_world (on_connection 3 (str ''C'') 100 ex_world) =
       [Send 3 (Welcome (str ''C'') [(str ''B'', JObj [(str ''x'', JNum 1)])]), Send 1 (Join (str ''C''))]"
  using welcome_roster [where w = ex_world and sock = 3 and uuid = "str ''C''" and now = 100]
  by (simp add: ex_world_def fanout_def)

text \<open>
  C5 as stated fails. \<open>A\<close> sends a \<^verbatim>\<open>state\<close> message whose payload is \<^verbatim>\<open>false\<close>; the
  relay records it as \<open>A\<close>'s state. The session \<open>D\<close> admitted next gets a roster with
  \<open>B\<close> only: \<open>A\<close>, which has a recorded state, is not in it.
\<close>

theorem welcome_roster_counterexample:
  "map_get (players (on_message ex_number (str ''A'') 1 7 (Some (ex_state_msg (JBool False))) ex_three)) (str ''A'') =
     Some \<lparr>ws = 1, lastSeen = 7, state = JBool False\<rparr>
   \<and> new_events (on_message ex_number (str ''A'') 1 7 (Some (ex_state_msg (JBool False))) ex_three)
       (on_connection 4 (str ''D'') 100 (on_message ex_number (str ''A'') 1 7 (Some (ex_state_msg (JBool False))) ex_three)) =
     [Send 4 (Welcome (str ''D'') [(str ''B'', JObj [(str ''x'', JNum 1)])]),
      Send 1 (Join (str ''D'')), Send 2 (Join (str ''D'')), Send 3 (Join (str ''D''))]"
  by (simp add: ex_three_def ex_state_msg_def on_message_def on_connection_def Let_def
      broadcast_eq fanout_def MAX_PLAYERS_def getPlayerStates_def new_events_def)

section \<open>The external-request pipeline\<close>

lemma js_prop_type_not_nullish: "js_prop msg k = JStr s \<Longrightarrow> \<not> nullish msg"
  by (cases msg) auto

text \<open>
  What the dispatcher does with a request that lacks a field: an \<^verbatim>\<open>ai\<close> request without
  a prompt or without a credential is answered with a \<open>Code_error\<close> on the requester's
  socket and no call is issued; a \<^verbatim>\<open>narrative\<close> request without a credential falls
  through every branch.
\<close>

lemma ai_missing_field:
  assumes "js_prop msg (str ''type'') = JStr (str ''ai'')"
      and "\<not> truthy (js_prop msg (str ''prompt'')) \<or> \<not> truthy (js_prop msg (str ''apiKey''))"
  shows "on_message N cid sock now (Some msg) w =
           w\<lparr>trace := trace w @
               [Send sock (Code_error (str ''Missing API key or prompt'')
                             (js_or (js_prop msg (str ''prompt'')) (JStr [])))]\<rparr>"
  using assms js_prop_type_not_nullish [OF assms(1)]
  by (auto simp: on_message_def ws_send_def)

lemma narrative_missing_credential:
  assumes "js_prop msg (str ''type'') = JStr (str ''narrative'')"
      and "\<not> truthy (js_prop msg (str ''apiKey''))"
  shows "on_message N cid sock now (Some msg) w = w"
  using assms js_prop_type_not_nullish [OF assms(1)]
  by (simp add: on_message_def)


text \<open>
  C2, evaluated. A \<^verbatim>\<open>narrative\<close> request without a credential leaves the whole state as
  it was: no call is issued, and no reply is sent either, where an \<^verbatim>\<open>ai\<close> request without
  a prompt gets its \<open>Code_error\<close>. A \<^verbatim>\<open>narrative\<close> request with a credential and no
  context is not rejected: the call is issued, with the defaults of the template.
\<close>

theorem narrative_without_credential_unanswered:
  "on_message ex_number (str ''A'') 1 7 (Some ex_narrative_no_key) ex_three = ex_three
   \<and> on_message ex_number (str ''A'') 1 7 (Some ex_ai_no_prompt) ex_three =
       ex_three\<lparr>trace := [Send 1 (Code_error (str ''Missing API key or prompt'') (JStr []))]\<rparr>
   \<and> trace (on_message ex_number (str ''A'') 1 7 (Some ex_narrative_no_context) ex_three) =
       [Backend_call
          \<lparr>apiKey = JStr (str ''k''), model = str ''claude-sonnet-4-5-20250929'', max_tokens = 1024,
             system = NARRATIVE_SYSTEM_PROMPT,
             content = JStr ((str ''Settlement: undefined'') @ nl @ (str ''Story Seed: (none provided)'') @ nl @ nl
               @ (str ''NPCs present:'') @ nl @ nl @ nl @ (str ''Previous events:'') @ nl @ (str ''(first gathering)'')
               @ nl @ nl @ (str ''Current narrative:'') @ nl @ none_yet @ nl @ nl
               @ (str ''Write the next chapter of this village's story.'')),
             cont = Narrative_cont (str ''A'') ex_narrative_no_context\<rparr>]"
  by (simp add: ex_narrative_no_key_def ex_ai_no_prompt_def ex_narrative_no_context_def
      ex_three_def on_message_def ws_send_def js_or_def handleNarrative_def userMessage_def
      npc_lines_def history_text_def array_join_def js_join_def)


subsection \<open>Completion of a backend call\<close>

lemma handleAI_catch_eq:
  "handleAI_catch a pr e w =
     (case map_get (players w) a of
        None \<Rightarrow> w
      | Some q \<Rightarrow>
          if readyState w (ws q) = 1 then w\<lparr>trace := trace w @ [Send (ws q) (Code_error e pr)]\<rparr>
          else w)"
  by (simp add: handleAI_catch_def ws_send_def split: option.splits)

lemma handleNarrative_catch_eq:
  "handleNarrative_catch a msg e w =
     (case map_get (players w) a of
        None \<Rightarrow> w
      | Some q \<Rightarrow>
          if readyState w (ws q) = 1
          then w\<lparr>trace := trace w @ [Send (ws q) (Narrative_error (js_prop msg (str ''settlementId'')) e)]\<rparr>
          else w)"
  by (simp add: handleNarrative_catch_def ws_send_def split: option.splits)

lemma broadcastAll_eq:
  "broadcastAll m w = w\<lparr>trace := trace w @ fanout m None (readyState w) (players w)\<rparr>"
  by (simp add: broadcastAll_def broadcastAll_loop_eq broadcast_loop_eq)

text \<open>
  What a settled call does. When a code call settles with a response whose first block is
  a text, one \<open>Code\<close> message (the trimmed text without its fences, the prompt, the
  author) is sent to every session then in the registry whose socket is open, the requester
  among them if it still is one, and nothing else is sent. When it settles with a rejection
  or with a response that has no leading text, nothing is broadcast: one \<open>Code_error\<close> is
  sent on the requester's socket if the requester is still in the registry with an open
  socket, and nothing at all is sent otherwise. The same holds of a narrative call with
  \<open>Narrative_result\<close> and \<open>Narrative_error\<close>, where a text that does not parse is a
  failure, and where the success stated here is that of a text that parses to a value
  other than \<^verbatim>\<open>null\<close>.
\<close>

lemma pipeline_outcome:
  "(first_text blocks = Inr t \<longrightarrow>
      resume P (AI_cont a pr) (Responded blocks) w =
        w\<lparr>trace := trace w @
            fanout (Code (strip_fences [(str ''javascript''), (str ''js'')] t) pr a) None
              (readyState w) (players w)\<rparr>)
   \<and> (out = Rejected e \<or> (out = Responded blocks \<and> first_text blocks = Inl e) \<longrightarrow>
      resume P (AI_cont a pr) out w =
        (case map_get (players w) a of
           None \<Rightarrow> w
         | Some q \<Rightarrow>
             if readyState w (ws q) = 1
             then w\<lparr>trace := trace w @ [Send (ws q) (Code_error e pr)]\<rparr>
             else w))
   \<and> (first_text blocks = Inr t \<and> P (strip_fences [(str ''json'')] t) = Inr r \<and> \<not> nullish r \<longrightarrow>
      resume P (Narrative_cont a msg) (Responded blocks) w =
        w\<lparr>trace := trace w @
            fanout (Narrative_result (js_prop msg (str ''settlementId'')) r) None
              (readyState w) (players w)\<rparr>)
   \<and> (out = Rejected e \<or> (out = Responded blocks \<and> first_text blocks = Inl e)
        \<or> (out = Responded blocks \<and> first_text blocks = Inr t
            \<and> P (strip_fences [(str ''json'')] t) = Inl e) \<longrightarrow>
      resume P (Narrative_cont a msg) out w =
        (case map_get (players w) a of
           None \<Rightarrow> w
         | Some q \<Rightarrow>
             if readyState w (ws q) = 1
             then w\<lparr>trace := trace w @
                     [Send (ws q) (Narrative_error (js_prop msg (str ''settlementId'')) e)]\<rparr>
             else w))"
proof (intro conjI impI)
  assume "first_text blocks = Inr t"
  then show "resume P (AI_cont a pr) (Responded blocks) w =
        w\<lparr>trace := trace w @
            fanout (Code (strip_fences [(str ''javascript''), (str ''js'')] t) pr a) None
              (readyState w) (players w)\<rparr>"
    by (simp add: resume_def handleAI_resume_def broadcastAll_eq)
next
  assume "out = Rejected e \<or> (out = Responded blocks \<and> first_text blocks = Inl e)"
  then show "resume P (AI_cont a pr) out w =
        (case map_get (players w) a of
           None \<Rightarrow> w
         | Some q \<Rightarrow>
             if readyState w (ws q) = 1
             then w\<lparr>trace := trace w @ [Send (ws q) (Code_error e pr)]\<rparr>
             else w)"
    by (auto simp: resume_def handleAI_resume_def handleAI_catch_eq)
next
  assume "first_text blocks = Inr t \<and> P (strip_fences [(str ''json'')] t) = Inr r \<and> \<not> nullish r"
  then show "resume P (Narrative_cont a msg) (Responded blocks) w =
        w\<lparr>trace := trace w @
            fanout (Narrative_result (js_prop msg (str ''settlementId'')) r) None
              (readyState w) (players w)\<rparr>"
    by (simp add: resume_def handleNarrative_resume_def broadcastAll_eq Let_def)
next
  assume "out = Rejected e \<or> (out = Responded blocks \<and> first_text blocks = Inl e)
        \<or> (out = Responded blocks \<and> first_text blocks = Inr t
            \<and> P (strip_fences [(str ''json'')] t) = Inl e)"
  then show "resume P (Narrative_cont a msg) out w =
        (case map_get (players w) a of
           None \<Rightarrow> w
         | Some q \<Rightarrow>
             if readyState w (ws q) = 1
             then w\<lparr>trace := trace w @
                     [Send (ws q) (Narrative_error (js_prop msg (str ''settlementId'')) e)]\<rparr>
             else w)"
    by (auto simp: resume_def handleNarrative_resume_def handleNarrative_catch_eq)
qed


lemma ex_text_eval:
  "js_trim ex_fenced = ex_fenced"
  "strip_fences [(str ''javascript''), (str ''js'')] ex_fenced = (str ''x()'')"
  "js_trim (str ''{}'') = (str ''{}'')"
  "ex_parse (strip_fences [(str ''json'')] (str ''{}'')) = Inr (JObj [])"
  "js_trim (str ''not json'') = (str ''not json'')"
  "ex_parse (strip_fences [(str ''json'')] (str ''not json'')) = Inl (str ''Unexpected token'')"
  by (simp_all add: ex_fenced_def fence_def nl_def js_trim_def is_ws_def strip_fences_def
      startsWith_def endsWith_def strip_open_fence_def strip_close_fence_def drop_newline_def
      ex_parse_def)

lemma pipeline_outcome_example:
  "resume ex_parse (AI_cont (str ''A'') (JStr (str ''add a moose''))) (Responded [Text_block ex_fenced])
     ex_three =
       ex_three\<lparr>trace := [Send 1 (Code (str ''x()'') (JStr (str ''add a moose'')) (str ''A'')),
                          Send 2 (Code (str ''x()'') (JStr (str ''add a moose'')) (str ''A'')),
                          Send 3 (Code (str ''x()'') (JStr (str ''add a moose'')) (str ''A''))]\<rparr>
   \<and> resume ex_parse (AI_cont (str ''A'') (JStr (str ''add a moose''))) (Rejected (str ''overloaded''))
       ex_three =
       ex_three\<lparr>trace := [Send 1 (Code_error (str ''overloaded'') (JStr (str ''add a moose'')))]\<rparr>
   \<and> resume ex_parse (Narrative_cont (str ''A'') ex_narrative_msg) (Responded [Text_block (str ''{}'')])
       ex_three =
       ex_three\<lparr>trace := [Send 1 (Narrative_result (JNum 4) (JObj [])),
                          Send 2 (Narrative_result (JNum 4) (JObj [])),
                          Send 3 (Narrative_result (JNum 4) (JObj []))]\<rparr>
   \<and> resume ex_parse (Narrative_cont (str ''A'') ex_narrative_msg)
       (Responded [Text_block (str ''not json'')]) ex_three =
       ex_three\<lparr>trace := [Send 1 (Narrative_error (JNum 4) (str ''Unexpected token''))]\<rparr>"
  using
    pipeline_outcome [where blocks = "[Text_block ex_fenced]" and t = ex_fenced and P = ex_parse
      and a = "str ''A''" and pr = "JStr (str ''add a moose'')" and w = ex_three
      and out = "Rejected (str ''overloaded'')" and e = "str ''overloaded''"
      and r = "JObj []" and msg = ex_narrative_msg]
    pipeline_outcome [where blocks = "[Text_block (str ''{}'')]" and t = "str ''{}''" and P = ex_parse
      and a = "str ''A''" and msg = ex_narrative_msg and w = ex_three and r = "JObj []"
      and out = "Rejected (str ''overloaded'')" and e = "str ''overloaded''"
      and pr = "JStr (str ''add a moose'')"]
    pipeline_outcome [where blocks = "[Text_block (str ''not json'')]" and t = "str ''not json''"
      and P = ex_parse and a = "str ''A''" and msg = ex_narrative_msg and w = ex_three
      and out = "Responded [Text_block (str ''not json'')]" and e = "str ''Unexpected token''"
      and r = "JObj []" and pr = "JStr (str ''add a moose'')"]
    ex_text_eval
  by (simp add: ex_three_def ex_narrative_msg_def fanout_def)

text \<open>
  A requester that has left gets no reply: \<open>A\<close> issues a code request and disconnects, the
  call is then rejected, and the trace gets no new event.
\<close>

lemma requester_gone_no_reply:
  "trace (on_message ex_number (str ''A'') 1 7 (Some ex_ai_msg) ex_three) =
     [Backend_call
        \<lparr>apiKey = JStr (str ''k''), model = str ''claude-sonnet-4-5-20250929'', max_tokens = 1024,
           system = AI_SYSTEM_PROMPT, content = JStr (str ''add a moose''),
           cont = AI_cont (str ''A'') (JStr (str ''add a moose''))\<rparr>]
   \<and> new_events (on_close (str ''A'') (on_message ex_number (str ''A'') 1 7 (Some ex_ai_msg) ex_three))
       (resume ex_parse (AI_cont (str ''A'') (JStr (str ''add a moose''))) (Rejected (str ''overloaded''))
          (on_close (str ''A'') (on_message ex_number (str ''A'') 1 7 (Some ex_ai_msg) ex_three))) = []"
  by (simp add: ex_ai_msg_def ex_three_def on_message_def handleAI_def on_close_def
      broadcast_eq fanout_def resume_def handleAI_resume_def handleAI_catch_def new_events_def)

subsection \<open>A narrative text that parses to null\<close>

text \<open>
  When the cleaned text of a narrative response parses to \<^verbatim>\<open>null\<close>, the result is
  broadcast, and then reading \<^verbatim>\<open>result.summary\<close> for the log line throws inside the
  \<^verbatim>\<open>try\<close>: the \<^verbatim>\<open>catch\<close> block runs after the broadcast, and a requester that is still
  registered with an open socket gets a \<open>Narrative_error\<close> on top of the
  \<open>Narrative_result\<close>.
\<close>

lemma narrative_null_general:
  assumes "first_text blocks = Inr t"
      and "P (strip_fences [str ''json''] t) = Inr JNull"
      and "map_get (players w) a = Some q"
      and "readyState w (ws q) = 1"
  shows "resume P (Narrative_cont a msg) (Responded blocks) w =
           w\<lparr>trace := trace w
               @ fanout (Narrative_result (js_prop msg (str ''settlementId'')) JNull) None
                   (readyState w) (players w)
               @ [Send (ws q)
                    (Narrative_error (js_prop msg (str ''settlementId''))
                       (str ''Cannot read properties of null (reading 'summary')''))]\<rparr>"
  using assms
  by (simp add: resume_def handleNarrative_resume_def broadcastAll_eq handleNarrative_catch_eq
      Let_def)

text \<open>
  C3, evaluated where the code breaks it. \<open>A\<close>, \<open>B\<close> and \<open>C\<close> are registered with open
  sockets, a narrative call of \<open>A\<close> settles with the text \<^verbatim>\<open>null\<close>, which
  \<^verbatim>\<open>JSON.parse\<close> accepts. The \<open>Narrative_result\<close> is broadcast to all three and \<open>A\<close>
  is sent a \<open>Narrative_error\<close> for the same call: the call is neither a success with
  one broadcast and no error reply, nor a failure with one error reply and nothing
  broadcast.
\<close>

theorem narrative_null_broadcast_and_error:
  "first_text [Text_block (str ''null'')] = Inr (str ''null'')
   \<and> ex_parse (strip_fences [str ''json''] (str ''null'')) = Inr JNull
   \<and> resume ex_parse (Narrative_cont (str ''A'') ex_narrative_msg)
       (Responded [Text_block (str ''null'')]) ex_three =
     ex_three\<lparr>trace := [Send 1 (Narrative_result (JNum 4) JNull),
                        Send 2 (Narrative_result (JNum 4) JNull),
                        Send 3 (Narrative_result (JNum 4) JNull),
                        Send 1 (Narrative_error (JNum 4)
                                  (str ''Cannot read properties of null (reading 'summary')''))]\<rparr>"
proof -
  have h1: "first_text [Text_block (str ''null'')] = Inr (str ''null'')"
    by (simp add: js_trim_def is_ws_def)
  have h2: "ex_parse (strip_fences [str ''json''] (str ''null'')) = Inr JNull"
    by (simp add: strip_fences_def startsWith_def fence_def ex_parse_def)
  have h3: "map_get (players ex_three) (str ''A'') = Some \<lparr>ws = 1, lastSeen = 0, state = JNull\<rparr>"
    by (simp add: ex_three_def)
  have h4: "readyState ex_three (ws \<lparr>ws = 1, lastSeen = 0, state = JNull\<rparr>) = 1"
    by (simp add: ex_three_def)
  from narrative_null_general [where P = ex_parse and msg = ex_narrative_msg, OF h1 h2 h3 h4]
    h1 h2
  show ?thesis
    by (simp add: ex_three_def ex_narrative_msg_def fanout_def)
qed


section \<open>The liveness reaper\<close>

lemma map_delete_absent: "k \<notin> fst ` set ps \<Longrightarrow> map_delete k ps = ps"
  by (induction k ps rule: map_delete.induct) auto

lemma map_delete_middle:
  assumes "k \<notin> fst ` set pre" "k \<notin> fst ` set rest"
  shows "map_delete k (pre @ (k, p) # rest) = pre @ rest"
  using assms by (induction pre) (auto simp: map_delete_absent)

text \<open>
  The sweep, run on the entries still to visit: it keeps the entries that are not stale
  and adds the events of \<open>sweep_events\<close>.
\<close>

lemma sweep_eq:
  assumes "distinct (map fst (pre @ es))" and "players w = pre @ es"
  shows "sweep now es w =
           w\<lparr>players := pre @ filter (\<lambda>(i, p). \<not> stale now p) es,
             trace := trace w @ sweep_events now (readyState w) pre es\<rparr>"
  using assms
proof (induction es arbitrary: pre w)
  case Nil
  then show ?case by simp
next
  case (Cons e es)
  obtain i p where e: "e = (i, p)" by (cases e)
  show ?case
  proof (cases "stale now p")
    case True
    let ?w3 = "broadcast (Leave i) None
                 ((ws_terminate (ws p) w)\<lparr>players := map_delete i (players (ws_terminate (ws p) w))\<rparr>)"
    from Cons.prems e have del: "map_delete i (pre @ (i, p) # es) = pre @ es"
      by (intro map_delete_middle) auto
    from Cons.prems e del have w3: "?w3 =
        w\<lparr>players := pre @ es,
          trace := trace w @ Terminate (ws p) # fanout (Leave i) None (readyState w) (pre @ es)\<rparr>"
      by (simp add: broadcast_eq ws_terminate_def)
    from Cons.prems e have "distinct (map fst (pre @ es))" by simp
    moreover from w3 have "players ?w3 = pre @ es" by simp
    ultimately have "sweep now es ?w3 =
        ?w3\<lparr>players := pre @ filter (\<lambda>(i, p). \<not> stale now p) es,
             trace := trace ?w3 @ sweep_events now (readyState ?w3) pre es\<rparr>"
      by (rule Cons.IH)
    with True e w3 show ?thesis
      by (simp add: stale_def STALE_TIMEOUT_def Let_def)
  next
    case False
    from Cons.prems e have "distinct (map fst ((pre @ [(i, p)]) @ es))"
      and "players w = (pre @ [(i, p)]) @ es" by simp_all
    then have "sweep now es w =
        w\<lparr>players := (pre @ [(i, p)]) @ filter (\<lambda>(i, p). \<not> stale now p) es,
          trace := trace w @ sweep_events now (readyState w) (pre @ [(i, p)]) es\<rparr>"
      by (rule Cons.IH)
    with False e show ?thesis
      by (simp add: stale_def STALE_TIMEOUT_def)
  qed
qed

subsection \<open>How often an event occurs in a fan-out and in a sweep\<close>

lemma count_fanout_Terminate [simp]:
  "count_list (fanout m ex rs ps) (Terminate c) = 0"
  by (induction ps) (auto simp: fanout_def)

lemma count_fanout_other_msg:
  "m \<noteq> m' \<Longrightarrow> count_list (fanout m ex rs ps) (Send c m') = 0"
  by (induction ps) (auto simp: fanout_def)

lemma count_fanout_other_socket:
  "c \<notin> (\<lambda>e. ws (snd e)) ` set ps \<Longrightarrow> count_list (fanout m ex rs ps) (Send c m') = 0"
  by (induction ps) (auto simp: fanout_def)

lemma count_fanout:
  assumes "distinct (map (\<lambda>e. ws (snd e)) ps)" and "(j, q) \<in> set ps"
  shows "count_list (fanout m None rs ps) (Send (ws q) m) = (if rs (ws q) = 1 then 1 else 0)"
  using assms
proof (induction ps)
  case Nil
  then show ?case by simp
next
  case (Cons e ps)
  obtain i p where e: "e = (i, p)" by (cases e)
  have split: "fanout m None rs (e # ps) =
      (if rs (ws p) = 1 then [Send (ws p) m] else []) @ fanout m None rs ps"
    by (simp add: fanout_def e)
  show ?case
  proof (cases "(j, q) \<in> set ps")
    case True
    with Cons.prems e have "ws p \<noteq> ws q" by (auto simp: image_iff)
    with Cons True split show ?thesis by simp
  next
    case False
    with Cons.prems e have jq: "j = i" "q = p" by auto
    from Cons.prems e have "ws p \<notin> (\<lambda>e. ws (snd e)) ` set ps" by simp
    then have "count_list (fanout m None rs ps) (Send (ws p) m) = 0"
      by (rule count_fanout_other_socket)
    with jq split show ?thesis by simp
  qed
qed

lemma count_sweep_Terminate_absent:
  "c \<notin> (\<lambda>e. ws (snd e)) ` set es \<Longrightarrow>
   count_list (sweep_events now rs pre es) (Terminate c) = 0"
  by (induction es arbitrary: pre) auto

lemma count_sweep_Terminate:
  assumes "distinct (map (\<lambda>e. ws (snd e)) es)" and "(i, p) \<in> set es"
  shows "count_list (sweep_events now rs pre es) (Terminate (ws p)) =
           (if stale now p then 1 else 0)"
  using assms
proof (induction es arbitrary: pre)
  case Nil
  then show ?case by simp
next
  case (Cons e es)
  obtain i' p' where e: "e = (i', p')" by (cases e)
  show ?case
  proof (cases "(i, p) \<in> set es")
    case True
    with Cons.prems e have "ws p' \<noteq> ws p" by (auto simp: image_iff)
    moreover from Cons.prems True
    have "count_list (sweep_events now rs pre' es) (Terminate (ws p)) =
            (if stale now p then 1 else 0)" for pre'
      by (intro Cons.IH) auto
    ultimately show ?thesis using e by simp
  next
    case False
    with Cons.prems e have same: "i' = i" "p' = p" by auto
    from Cons.prems e have "ws p' \<notin> (\<lambda>e. ws (snd e)) ` set es" by simp
    then have "count_list (sweep_events now rs pre' es) (Terminate (ws p')) = 0" for pre'
      by (rule count_sweep_Terminate_absent)
    with same e show ?thesis by simp
  qed
qed

lemma count_sweep_Leave_absent:
  "k \<notin> fst ` set es \<Longrightarrow> count_list (sweep_events now rs pre es) (Send c (Leave k)) = 0"
  by (induction es arbitrary: pre) (auto simp: count_fanout_other_msg)

lemma count_sweep_Leave:
  assumes "distinct (map fst (pre @ es))"
      and "distinct (map (\<lambda>e. ws (snd e)) (pre @ es))"
      and "(k, p) \<in> set es"
      and "(j, q) \<in> set (pre @ filter (\<lambda>(i, p). \<not> stale now p) es)"
  shows "count_list (sweep_events now rs pre es) (Send (ws q) (Leave k)) =
           (if stale now p \<and> rs (ws q) = 1 then 1 else 0)"
  using assms
proof (induction es arbitrary: pre)
  case Nil
  then show ?case by simp
next
  case (Cons e es)
  obtain i' p' where e: "e = (i', p')" by (cases e)
  show ?case
  proof (cases "stale now p'")
    case True
    from Cons.prems e True have jq: "(j, q) \<in> set (pre @ filter (\<lambda>(i, p). \<not> stale now p) es)"
      by simp
    then have jq': "(j, q) \<in> set (pre @ es)" by auto
    from Cons.prems e have d1: "distinct (map fst (pre @ es))"
      and d2: "distinct (map (\<lambda>e. ws (snd e)) (pre @ es))" by simp_all
    show ?thesis
    proof (cases "k = i'")
      case k: True
      from Cons.prems e k have "k \<notin> fst ` set es" by auto
      then have rest: "count_list (sweep_events now rs pre es) (Send (ws q) (Leave k)) = 0"
        by (rule count_sweep_Leave_absent)
      from Cons.prems e k have "p = p'" by (auto simp: image_iff)
      moreover from d2 jq'
      have "count_list (fanout (Leave k) None rs (pre @ es)) (Send (ws q) (Leave k)) =
              (if rs (ws q) = 1 then 1 else 0)"
        by (rule count_fanout)
      ultimately show ?thesis using True e k rest by simp
    next
      case k: False
      with Cons.prems e have "(k, p) \<in> set es" by auto
      with d1 d2 jq have "count_list (sweep_events now rs pre es) (Send (ws q) (Leave k)) =
           (if stale now p \<and> rs (ws q) = 1 then 1 else 0)"
        by (intro Cons.IH)
      moreover from k
      have "count_list (fanout (Leave i') None rs (pre @ es)) (Send (ws q) (Leave k)) = 0"
        by (intro count_fanout_other_msg) simp
      ultimately show ?thesis using True e by simp
    qed
  next
    case False
    from Cons.prems e False
    have jq: "(j, q) \<in> set ((pre @ [(i', p')]) @ filter (\<lambda>(i, p). \<not> stale now p) es)"
      by simp
    from Cons.prems e have d1: "distinct (map fst ((pre @ [(i', p')]) @ es))"
      and d2: "distinct (map (\<lambda>e. ws (snd e)) ((pre @ [(i', p')]) @ es))" by simp_all
    show ?thesis
    proof (cases "k = i'")
      case k: True
      from Cons.prems e k have "k \<notin> fst ` set es" by auto
      then have "count_list (sweep_events now rs (pre @ [(i', p')]) es) (Send (ws q) (Leave k)) = 0"
        by (rule count_sweep_Leave_absent)
      moreover from Cons.prems e k have "p = p'" by (auto simp: image_iff)
      ultimately show ?thesis using False e by simp
    next
      case k: False
      with Cons.prems e have "(k, p) \<in> set es" by auto
      with d1 d2 jq
      have "count_list (sweep_events now rs (pre @ [(i', p')]) es) (Send (ws q) (Leave k)) =
           (if stale now p \<and> rs (ws q) = 1 then 1 else 0)"
        by (intro Cons.IH)
      with False e show ?thesis by simp
    qed
  qed
qed

lemma sweep_events_kinds:
  "ev \<in> set (sweep_events now rs pre es) \<Longrightarrow>
   (\<exists>i p. (i, p) \<in> set es \<and> stale now p \<and> (ev = Terminate (ws p) \<or> (\<exists>c. ev = Send c (Leave i))))"
proof (induction es arbitrary: pre)
  case Nil
  then show ?case by simp
next
  case (Cons e es)
  obtain i' p' where e: "e = (i', p')" by (cases e)
  show ?case
  proof (cases "stale now p'")
    case True
    with Cons.prems e
    consider "ev = Terminate (ws p')"
      | "ev \<in> set (fanout (Leave i') None rs (pre @ es))"
      | "ev \<in> set (sweep_events now rs pre es)"
      by auto
    then show ?thesis
    proof cases
      case 1
      with True e show ?thesis by auto
    next
      case 2
      then have "\<exists>c. ev = Send c (Leave i')" by (auto simp: fanout_def)
      with True e show ?thesis by auto
    next
      case 3
      then have "\<exists>i p. (i, p) \<in> set es \<and> stale now p \<and>
                  (ev = Terminate (ws p) \<or> (\<exists>c. ev = Send c (Leave i)))"
        by (rule Cons.IH)
      with e show ?thesis by auto
    qed
  next
    case False
    with Cons.prems e have "ev \<in> set (sweep_events now rs (pre @ [(i', p')]) es)" by simp
    then have "\<exists>i p. (i, p) \<in> set es \<and> stale now p \<and>
                  (ev = Terminate (ws p) \<or> (\<exists>c. ev = Send c (Leave i)))"
      by (rule Cons.IH)
    with e show ?thesis by auto
  qed
qed


lemma reaper_eq:
  assumes "wf_registry (players w)"
  shows "reaper now w =
           w\<lparr>players := filter (\<lambda>(i, p). \<not> stale now p) (players w),
             trace := trace w @ sweep_events now (readyState w) [] (players w)\<rparr>"
proof -
  from assms have "distinct (map fst ([] @ players w))" by (simp add: wf_registry_def)
  moreover have "players w = [] @ players w" by simp
  ultimately have "sweep now (players w) w =
      w\<lparr>players := [] @ filter (\<lambda>(i, p). \<not> stale now p) (players w),
        trace := trace w @ sweep_events now (readyState w) [] (players w)\<rparr>"
    by (rule sweep_eq)
  then show ?thesis by (simp add: reaper_def)
qed

text \<open>
  One sweep at time \<open>now\<close> over a well-formed registry removes exactly the sessions
  with \<open>now - lastSeen > 15000\<close> and leaves every other entry as it was, in its place.
  The socket of each removed session is terminated exactly once, and no other socket is.
  For each removed session, exactly one \<open>Leave\<close> message with its identifier is sent to
  each session that remains after the sweep and has an open socket (none to one whose
  socket is not open), and no \<open>Leave\<close> is sent for a session that stays. The sweep makes
  no other kind of call.
\<close>

lemma reaper_sweep:
  assumes "wf_registry (players w)"
  shows "players (reaper now w) = filter (\<lambda>(i, p). \<not> now - lastSeen p > 15000) (players w)
       \<and> readyState (reaper now w) = readyState w
       \<and> uuid_calls (reaper now w) = uuid_calls w
       \<and> trace (reaper now w) = trace w @ new_events w (reaper now w)
       \<and> (\<forall>(i, p) \<in> set (players w).
            count_list (new_events w (reaper now w)) (Terminate (ws p)) =
              (if now - lastSeen p > 15000 then 1 else 0)
            \<and> (\<forall>(j, q) \<in> set (players (reaper now w)).
                 count_list (new_events w (reaper now w)) (Send (ws q) (Leave i)) =
                   (if now - lastSeen p > 15000 \<and> readyState w (ws q) = 1 then 1 else 0)))
       \<and> (\<forall>ev \<in> set (new_events w (reaper now w)).
            \<exists>i p. (i, p) \<in> set (players w) \<and> now - lastSeen p > 15000
                  \<and> (ev = Terminate (ws p) \<or> (\<exists>c. ev = Send c (Leave i))))"
proof -
  let ?evs = "sweep_events now (readyState w) [] (players w)"
  let ?kept = "filter (\<lambda>(i, p). \<not> stale now p) (players w)"
  note eq = reaper_eq [OF assms, of now]
  have ne: "new_events w (reaper now w) = ?evs"
    by (simp add: eq)
  from assms have d1: "distinct (map fst ([] @ players w))"
    and d2: "distinct (map (\<lambda>e. ws (snd e)) ([] @ players w))"
    and d3: "distinct (map (\<lambda>e. ws (snd e)) (players w))"
    by (simp_all add: wf_registry_def)
  have tcount: "count_list ?evs (Terminate (ws p)) = (if stale now p then 1 else 0)"
    if "(i, p) \<in> set (players w)" for i p
    using d3 that by (rule count_sweep_Terminate)
  have leave: "count_list ?evs (Send (ws q) (Leave i)) =
                 (if stale now p \<and> readyState w (ws q) = 1 then 1 else 0)"
    if "(i, p) \<in> set (players w)" and "(j, q) \<in> set ?kept" for i p j q
  proof -
    from that(2) have "(j, q) \<in> set ([] @ ?kept)" by simp
    with d1 d2 that(1) show ?thesis by (rule count_sweep_Leave)
  qed
  have kinds: "\<exists>i p. (i, p) \<in> set (players w) \<and> stale now p
                  \<and> (ev = Terminate (ws p) \<or> (\<exists>c. ev = Send c (Leave i)))"
    if "ev \<in> set ?evs" for ev
    using that by (rule sweep_events_kinds)
  have c1: "players (reaper now w) =
              filter (\<lambda>(i, p). \<not> now - lastSeen p > 15000) (players w)"
    by (simp add: eq stale_def)
  have c2: "readyState (reaper now w) = readyState w" by (simp add: eq)
  have c3: "uuid_calls (reaper now w) = uuid_calls w" by (simp add: eq)
  have c4: "trace (reaper now w) = trace w @ new_events w (reaper now w)"
    unfolding ne by (simp add: eq)
  have c5: "\<forall>(i, p) \<in> set (players w).
            count_list (new_events w (reaper now w)) (Terminate (ws p)) =
              (if now - lastSeen p > 15000 then 1 else 0)
            \<and> (\<forall>(j, q) \<in> set (players (reaper now w)).
                 count_list (new_events w (reaper now w)) (Send (ws q) (Leave i)) =
                   (if now - lastSeen p > 15000 \<and> readyState w (ws q) = 1 then 1 else 0))"
  proof (intro ballI)
    fix x assume x: "x \<in> set (players w)"
    obtain i p where xp: "x = (i, p)" by (cases x)
    from x xp have ip: "(i, p) \<in> set (players w)" by simp
    have A: "count_list (new_events w (reaper now w)) (Terminate (ws p)) =
              (if now - lastSeen p > 15000 then 1 else 0)"
      using tcount [OF ip] by (simp add: ne stale_def)
    have B: "\<forall>(j, q) \<in> set (players (reaper now w)).
                 count_list (new_events w (reaper now w)) (Send (ws q) (Leave i)) =
                   (if now - lastSeen p > 15000 \<and> readyState w (ws q) = 1 then 1 else 0)"
    proof (intro ballI)
      fix y assume y: "y \<in> set (players (reaper now w))"
      obtain j q where yq: "y = (j, q)" by (cases y)
      from y yq have "(j, q) \<in> set ?kept" by (simp add: eq)
      from leave [OF ip this]
      show "case y of (j, q) \<Rightarrow>
                 count_list (new_events w (reaper now w)) (Send (ws q) (Leave i)) =
                   (if now - lastSeen p > 15000 \<and> readyState w (ws q) = 1 then 1 else 0)"
        by (simp add: yq ne stale_def)
    qed
    from A B
    show "case x of (i, p) \<Rightarrow>
            count_list (new_events w (reaper now w)) (Terminate (ws p)) =
              (if now - lastSeen p > 15000 then 1 else 0)
            \<and> (\<forall>(j, q) \<in> set (players (reaper now w)).
                 count_list (new_events w (reaper now w)) (Send (ws q) (Leave i)) =
                   (if now - lastSeen p > 15000 \<and> readyState w (ws q) = 1 then 1 else 0))"
      by (simp add: xp)
  qed
  have c6: "\<forall>ev \<in> set (new_events w (reaper now w)).
            \<exists>i p. (i, p) \<in> set (players w) \<and> now - lastSeen p > 15000
                  \<and> (ev = Terminate (ws p) \<or> (\<exists>c. ev = Send c (Leave i)))"
  proof
    fix ev assume "ev \<in> set (new_events w (reaper now w))"
    then have "ev \<in> set ?evs" by (simp add: ne)
    from kinds [OF this]
    show "\<exists>i p. (i, p) \<in> set (players w) \<and> now - lastSeen p > 15000
                  \<and> (ev = Terminate (ws p) \<or> (\<exists>c. ev = Send c (Leave i)))"
      by (simp add: stale_def)
  qed
  from c1 c2 c3 c4 c5 c6 show ?thesis by (intro conjI)
qed

lemma reaper_sweep_example:
  "wf_registry (players ex_three)
   \<and> players (reaper 16000 ex_three) =
       [(str ''B'', \<lparr>ws = 2, lastSeen = 5000, state = JObj [(str ''x'', JNum 1)]\<rparr>)]
   \<and> trace (reaper 16000 ex_three) =
       [Terminate 1, Send 2 (Leave (str ''A'')), Send 3 (Leave (str ''A'')), Terminate 3, Send 2 (Leave (str ''C''))]
   \<and> count_list (new_events ex_three (reaper 16000 ex_three)) (Terminate 1) = 1
   \<and> count_list (new_events ex_three (reaper 16000 ex_three)) (Terminate 2) = 0
   \<and> count_list (new_events ex_three (reaper 16000 ex_three)) (Send 2 (Leave (str ''A''))) = 1
   \<and> count_list (new_events ex_three (reaper 16000 ex_three)) (Send 2 (Leave (str ''C''))) = 1
   \<and> count_list (new_events ex_three (reaper 16000 ex_three)) (Send 2 (Leave (str ''B''))) = 0"
proof -
  have wf: "wf_registry (players ex_three)"
    by (simp add: ex_three_def wf_registry_def)
  have run: "reaper 16000 ex_three =
      ex_three\<lparr>players := [(str ''B'', \<lparr>ws = 2, lastSeen = 5000, state = JObj [(str ''x'', JNum 1)]\<rparr>)],
               trace := [Terminate 1, Send 2 (Leave (str ''A'')), Send 3 (Leave (str ''A'')), Terminate 3,
                         Send 2 (Leave (str ''C''))]\<rparr>"
    by (simp add: reaper_def ex_three_def STALE_TIMEOUT_def Let_def ws_terminate_def
        broadcast_eq fanout_def)
  from reaper_sweep [OF wf, of 16000] run wf show ?thesis
    by (simp add: new_events_def ex_three_def)
qed


text \<open>
  The \<^verbatim>\<open>close\<close> handler does not look whether its session is still registered: run for
  an identifier that is no longer a key, it deletes nothing and still sends \<open>Leave\<close> to
  every open session.
\<close>

lemma on_close_absent:
  assumes "cid \<notin> fst ` set (players w)"
  shows "on_close cid w = w\<lparr>trace := trace w @ fanout (Leave cid) None (readyState w) (players w)\<rparr>"
  using assms by (simp add: on_close_def broadcast_eq map_delete_absent)

section \<open>The registry stays well formed\<close>

text \<open>
  The empty registry is well formed, and every handler keeps it so, provided an admitted
  connection comes with an identifier and a socket that the registry does not hold yet.
\<close>

lemma wf_registry_empty: "wf_registry []"
  by (simp add: wf_registry_def)

lemma map_set_same_socket:
  "map_get ps k = Some p \<Longrightarrow> ws v = ws p \<Longrightarrow>
   map fst (map_set k v ps) = map fst ps
   \<and> map (\<lambda>e. ws (snd e)) (map_set k v ps) = map (\<lambda>e. ws (snd e)) ps"
  by (induction k v ps rule: map_set.induct) (auto split: if_splits)

lemma map_delete_filter: "map_delete k ps = filter (\<lambda>e. fst e \<noteq> k) ps"
  by (induction k ps rule: map_delete.induct) auto

lemma wf_registry_filter: "wf_registry ps \<Longrightarrow> wf_registry (filter P ps)"
  by (simp add: wf_registry_def distinct_map_filter)

lemma players_handleAI_catch [simp]: "players (handleAI_catch a pr e w) = players w"
  by (simp add: handleAI_catch_eq split: option.splits)

lemma players_handleNarrative_catch [simp]: "players (handleNarrative_catch a m e w) = players w"
  by (simp add: handleNarrative_catch_eq split: option.splits)

lemma players_resume: "players (resume P k out w) = players w"
  by (cases k)
    (auto simp: resume_def handleAI_resume_def handleNarrative_resume_def broadcastAll_eq Let_def
      split: outcome.splits sum.splits)

lemma wf_on_connection:
  assumes "wf_registry (players w)"
      and "uuid \<notin> fst ` set (players w)"
      and "sock \<notin> (\<lambda>e. ws (snd e)) ` set (players w)"
  shows "wf_registry (players (on_connection sock uuid now w))"
  using assms
  by (simp add: on_connection_def Let_def ws_close_def broadcast_eq map_set_fresh wf_registry_def)

lemma wf_on_message:
  assumes "wf_registry (players w)"
  shows "wf_registry (players (on_message N cid sock now parsed w))"
proof (cases parsed)
  case None
  with assms show ?thesis by (simp add: on_message_def)
next
  case (Some msg)
  show ?thesis
  proof (cases "js_prop msg (str ''type'') = JStr (str ''state'')")
    case True
    show ?thesis
    proof (cases "map_get (players w) cid")
      case None
      with assms True Some show ?thesis by (simp add: on_message_state broadcast_eq)
    next
      case (Some p)
      from map_set_same_socket [OF Some, of "p\<lparr>lastSeen := now, state := js_prop msg (str ''data'')\<rparr>"]
      have "wf_registry (map_set cid (p\<lparr>lastSeen := now, state := js_prop msg (str ''data'')\<rparr>) (players w))"
        using assms by (simp add: wf_registry_def)
      with True Some \<open>parsed = Some msg\<close> show ?thesis
        by (simp add: on_message_state broadcast_eq)
    qed
  next
    case False
    with assms Some show ?thesis
      by (auto simp: on_message_def handleAI_def handleNarrative_def ws_send_def
          split: option.splits sum.splits)
  qed
qed

lemma wf_on_close:
  "wf_registry (players w) \<Longrightarrow> wf_registry (players (on_close cid w))"
  by (simp add: on_close_def broadcast_eq map_delete_filter wf_registry_filter)

lemma wf_reaper:
  "wf_registry (players w) \<Longrightarrow> wf_registry (players (reaper now w))"
  by (simp add: reaper_eq wf_registry_filter)

section \<open>The close event of an evicted session\<close>

text \<open>
  \<^verbatim>\<open>ws.terminate()\<close> destroys the connection, and the socket then emits \<^verbatim>\<open>close\<close>, which
  runs the close handler that the connection handler installed for that session. By then
  the sweep has removed the session, so the handler deletes nothing, and its broadcast is
  a second \<open>Leave\<close> with the same identifier: of the sweep and the close handler
  together, each session that remains with an open socket receives it twice.
\<close>

lemma leave_twice_after_eviction:
  assumes wf: "wf_registry (players w)"
      and ip: "(i, p) \<in> set (players w)"
      and old: "now - lastSeen p > 15000"
      and jq: "(j, q) \<in> set (players (reaper now w))"
      and op: "readyState w (ws q) = 1"
  shows "count_list (new_events w (on_close i (reaper now w))) (Send (ws q) (Leave i)) = 2"
proof -
  let ?w' = "reaper now w"
  let ?kept = "filter (\<lambda>(i, p). \<not> stale now p) (players w)"
  let ?evs = "sweep_events now (readyState w) [] (players w)"
  note eq = reaper_eq [OF wf, of now]
  have kept: "players ?w' = ?kept" by (simp add: eq)
  have rs: "readyState ?w' = readyState w" by (simp add: eq)
  have tr: "trace ?w' = trace w @ ?evs" by (simp add: eq)
  from old have st: "stale now p" by (simp add: stale_def)
  from wf have d1: "distinct (map fst ([] @ players w))"
    and d2: "distinct (map (\<lambda>e. ws (snd e)) ([] @ players w))"
    by (simp_all add: wf_registry_def)
  from jq kept have jq': "(j, q) \<in> set ([] @ ?kept)" by simp
  from d1 d2 ip jq'
  have "count_list ?evs (Send (ws q) (Leave i)) =
          (if stale now p \<and> readyState w (ws q) = 1 then 1 else 0)"
    by (rule count_sweep_Leave)
  with st op have once: "count_list ?evs (Send (ws q) (Leave i)) = 1" by simp
  have gone: "i \<notin> fst ` set (players ?w')"
  proof
    assume "i \<in> fst ` set (players ?w')"
    with kept obtain p' where p': "(i, p') \<in> set (players w)" and fresh: "\<not> stale now p'"
      by auto
    from wf have "inj_on fst (set (players w))"
      by (simp add: wf_registry_def distinct_map)
    from inj_onD [OF this, of "(i, p)" "(i, p')"] ip p' have "p = p'" by simp
    with st fresh show False by simp
  qed
  from wf have "distinct (map (\<lambda>e. ws (snd e)) ?kept)"
    by (simp add: wf_registry_def distinct_map_filter)
  with kept have d: "distinct (map (\<lambda>e. ws (snd e)) (players ?w'))" by simp
  from d jq have "count_list (fanout (Leave i) None (readyState w) (players ?w'))
                 (Send (ws q) (Leave i)) = (if readyState w (ws q) = 1 then 1 else 0)"
    by (rule count_fanout)
  with op have again: "count_list (fanout (Leave i) None (readyState w) (players ?w'))
                 (Send (ws q) (Leave i)) = 1" by simp
  from gone have "on_close i ?w' =
      ?w'\<lparr>trace := trace ?w' @ fanout (Leave i) None (readyState ?w') (players ?w')\<rparr>"
    by (rule on_close_absent)
  then have "trace (on_close i ?w') =
      trace w @ (?evs @ fanout (Leave i) None (readyState w) (players ?w'))"
    by (simp add: tr rs)
  then have "new_events w (on_close i ?w') =
      ?evs @ fanout (Leave i) None (readyState w) (players ?w')"
    by (rule new_events_append)
  with once again show ?thesis by simp
qed

text \<open>
  C6, evaluated where the code breaks it. \<open>A\<close>, \<open>B\<close> and \<open>C\<close> are registered with open
  sockets; at time 16000 \<open>A\<close> and \<open>C\<close> are stale and \<open>B\<close>, last seen at 5000, is not.
  The sweep terminates the sockets of \<open>A\<close> and \<open>C\<close>, keeps \<open>B\<close> alone and sends it one
  \<open>Leave\<close> for each. When the terminated socket of \<open>A\<close> then emits \<^verbatim>\<open>close\<close>, its
  close handler sends \<open>B\<close> the \<open>Leave\<close> of \<open>A\<close> again: \<open>B\<close> has received it twice,
  not exactly once.
\<close>

theorem eviction_leaves_twice:
  "players (reaper 16000 ex_three) =
     [(str ''B'', \<lparr>ws = 2, lastSeen = 5000, state = JObj [(str ''x'', JNum 1)]\<rparr>)]
   \<and> new_events ex_three (reaper 16000 ex_three) =
       [Terminate 1, Send 2 (Leave (str ''A'')), Send 3 (Leave (str ''A'')),
        Terminate 3, Send 2 (Leave (str ''C''))]
   \<and> new_events ex_three (on_close (str ''A'') (reaper 16000 ex_three)) =
       [Terminate 1, Send 2 (Leave (str ''A'')), Send 3 (Leave (str ''A'')),
        Terminate 3, Send 2 (Leave (str ''C'')), Send 2 (Leave (str ''A''))]
   \<and> count_list (new_events ex_three (on_close (str ''A'') (reaper 16000 ex_three)))
       (Send 2 (Leave (str ''A''))) = 2"
proof -
  have run: "reaper 16000 ex_three =
      ex_three\<lparr>players := [(str ''B'', \<lparr>ws = 2, lastSeen = 5000,
                                      state = JObj [(str ''x'', JNum 1)]\<rparr>)],
               trace := [Terminate 1, Send 2 (Leave (str ''A'')), Send 3 (Leave (str ''A'')),
                         Terminate 3, Send 2 (Leave (str ''C''))]\<rparr>"
    by (simp add: reaper_def ex_three_def STALE_TIMEOUT_def Let_def ws_terminate_def
        broadcast_eq fanout_def)
  show ?thesis
    unfolding run
    by (simp add: new_events_def ex_three_def on_close_def broadcast_eq fanout_def)
qed

end
